theory Spec2Isabelle
  imports Complex_Main
begin

text \<open>
  A model of the layout, placement, animation and gesture code of an interactive 3D
  Christmas tree (React, three.js): \<open>Foliage\<close>, \<open>Ornaments\<close>, \<open>PhotoFrames\<close>, \<open>App\<close> and
  \<open>GestureController\<close>. The first part translates the code, function by function; the
  second part proves properties of it.
\<close>

section \<open>Numbers and vectors\<close>

text \<open>
  JavaScript numbers are modelled as real numbers: every statement below is about the
  arithmetic the code writes down, read over the reals (no rounding, no NaN).
  \<open>Math.random()\<close> is modelled by a random source \<open>rng :: nat \<Rightarrow> real\<close> together with
  the index of the next draw, so that the order of the draws is the order of the calls;
  the source promises draws in \<open>[0, 1)\<close>, which a statement assumes where it needs it.
\<close>

datatype vec3 = Vector3 (vx: real) (vy: real) (vz: real)

text \<open>\<open>Math.hypot\<close> with two and with three arguments.\<close>

definition hypot2 :: "real \<Rightarrow> real \<Rightarrow> real" where
  "hypot2 a b = sqrt (a * a + b * b)"

definition hypot3 :: "real \<Rightarrow> real \<Rightarrow> real \<Rightarrow> real" where
  "hypot3 a b c = sqrt (a * a + b * b + c * c)"

text \<open>\<open>THREE.Vector3.distanceTo\<close>: the Euclidean distance of two points.\<close>

definition distanceTo :: "vec3 \<Rightarrow> vec3 \<Rightarrow> real" where
  "distanceTo p q =
     sqrt ((vx p - vx q) * (vx p - vx q) + (vy p - vy q) * (vy p - vy q)
           + (vz p - vz q) * (vz p - vz q))"

text \<open>
  \<open>THREE.MathUtils.lerp(x, y, t)\<close> is \<open>(1 - t) * x + t * y\<close>, and
  \<open>Vector3.lerp(v, alpha)\<close> adds \<open>(v - this) * alpha\<close> to each coordinate of \<open>this\<close>.
\<close>

definition lerp :: "real \<Rightarrow> real \<Rightarrow> real \<Rightarrow> real" where
  "lerp a b t = (1 - t) * a + t * b"

definition vec_lerp :: "vec3 \<Rightarrow> vec3 \<Rightarrow> real \<Rightarrow> vec3" where
  "vec_lerp p v alpha =
     Vector3 (vx p + (vx v - vx p) * alpha) (vy p + (vy v - vy p) * alpha)
             (vz p + (vz v - vz p) * alpha)"

datatype TreeState = SCATTERED | TREE_SHAPE

section \<open>GestureController.tsx\<close>

text \<open>
  The state the gesture controller writes: the three values it publishes through
  \<open>setTreeState\<close>, \<open>setPhotoScale\<close> and \<open>setRotationMod\<close>, and its own
  \<open>pinchSmoother\<close> reference.
\<close>

record gesture_state =
  treeState :: TreeState
  photoScale :: real
  rotationMod :: real
  pinchSmoother :: real

text \<open>The controller starts with \<open>pinchSmoother = 1.0\<close>; \<open>App\<close> starts with
  \<open>SCATTERED\<close>, \<open>photoScale = 1.0\<close> and \<open>rotationMod = 0\<close>.\<close>

definition initial_gesture_state :: gesture_state where
  "initial_gesture_state =
     \<lparr>treeState = SCATTERED, photoScale = 1.0, rotationMod = 0, pinchSmoother = 1.0\<rparr>"

definition targetScale :: "bool \<Rightarrow> real" where
  "targetScale isPinching = (if isPinching then 10.0 else 1.0)"

definition lerpSpeed :: "bool \<Rightarrow> real" where
  "lerpSpeed isPinching = (if isPinching then 0.1 else 0.4)"

definition updateScale :: "bool \<Rightarrow> gesture_state \<Rightarrow> gesture_state" where
  "updateScale isPinching s =
     (let p = pinchSmoother s + (targetScale isPinching - pinchSmoother s) * lerpSpeed isPinching;
          p' = (if \<not> isPinching \<and> \<bar>p - 1.0\<bar> < 0.05 then 1.0 else p)
      in s\<lparr>pinchSmoother := p', photoScale := p'\<rparr>)"

datatype landmark = Landmark (lm_x: real) (lm_y: real) (lm_z: real)

datatype js_error = TypeError

text \<open>
  One hand is an array of landmarks. The loop body reads the entries 0, 4, 8, 12, 16 and
  20 and then their coordinates; on a shorter array an entry is \<open>undefined\<close> and reading
  its coordinate throws, before anything has been published.
\<close>

record hand_flags =
  isFist :: bool
  isOpen :: bool
  isPinching :: bool
  totalX :: real

definition pinchDist :: "landmark list \<Rightarrow> real" where
  "pinchDist hand =
     (let thumbTip = hand ! 4; indexTip = hand ! 8
      in hypot3 (lm_x thumbTip - lm_x indexTip) (lm_y thumbTip - lm_y indexTip)
                (lm_z thumbTip - lm_z indexTip))"

definition avgDist :: "landmark list \<Rightarrow> real" where
  "avgDist hand =
     (let wrist = hand ! 0; indexTip = hand ! 8; middleTip = hand ! 12;
          ringTip = hand ! 16; pinkyTip = hand ! 20;
          dIndex = hypot2 (lm_x indexTip - lm_x wrist) (lm_y indexTip - lm_y wrist);
          dMid = hypot2 (lm_x middleTip - lm_x wrist) (lm_y middleTip - lm_y wrist);
          dRing = hypot2 (lm_x ringTip - lm_x wrist) (lm_y ringTip - lm_y wrist);
          dPinky = hypot2 (lm_x pinkyTip - lm_x wrist) (lm_y pinkyTip - lm_y wrist)
      in (dIndex + dMid + dRing + dPinky) / 4)"

definition hand_step :: "landmark list \<Rightarrow> hand_flags \<Rightarrow> js_error + hand_flags" where
  "hand_step hand f =
     (if length hand \<le> 20 then Inl TypeError
      else
        let f1 = f\<lparr>totalX := totalX f + lm_x (hand ! 0)\<rparr>;
            f2 = (if pinchDist hand < 0.05 then f1\<lparr>isPinching := True\<rparr> else f1)
        in Inr (if avgDist hand < 0.25 then f2\<lparr>isFist := True\<rparr>
                else if avgDist hand > 0.4 then f2\<lparr>isOpen := True\<rparr>
                else f2))"

fun hands_loop :: "landmark list list \<Rightarrow> hand_flags \<Rightarrow> js_error + hand_flags" where
  "hands_loop [] f = Inr f"
| "hands_loop (hand # rest) f =
     (case hand_step hand f of Inl e \<Rightarrow> Inl e | Inr f' \<Rightarrow> hands_loop rest f')"

definition processLandmarks :: "landmark list list \<Rightarrow> gesture_state \<Rightarrow> js_error + gesture_state" where
  "processLandmarks landmarks s =
     (if length landmarks = 0 then Inr (updateScale False (s\<lparr>rotationMod := 0\<rparr>))
      else
        case hands_loop landmarks
               \<lparr>isFist = False, isOpen = False, isPinching = False, totalX = 0\<rparr> of
          Inl e \<Rightarrow> Inl e
        | Inr f \<Rightarrow>
            let s1 = (if isOpen f then s\<lparr>treeState := SCATTERED\<rparr>
                      else if isFist f then s\<lparr>treeState := TREE_SHAPE\<rparr>
                      else s);
                s2 = updateScale (isPinching f) s1;
                avgX = totalX f / real (length landmarks);
                rotationInfluence = (0.5 - avgX) * 5.0
            in Inr (s2\<lparr>rotationMod := rotationInfluence\<rparr>))"

text \<open>
  \<open>predict\<close>, once the detector has run on a new video frame: \<open>results.landmarks\<close> is
  either present (\<open>Some\<close>, possibly the empty array) or absent (\<open>None\<close>).
\<close>

definition predict :: "landmark list list option \<Rightarrow> gesture_state \<Rightarrow> js_error + gesture_state" where
  "predict results s =
     (case results of
        Some landmarks \<Rightarrow> processLandmarks landmarks s
      | None \<Rightarrow> Inr (updateScale False (s\<lparr>rotationMod := 0\<rparr>)))"

text \<open>A run of video frames; an exception ends the run.\<close>

fun predict_frames :: "landmark list list option list \<Rightarrow> gesture_state \<Rightarrow> js_error + gesture_state" where
  "predict_frames [] s = Inr s"
| "predict_frames (r # rs) s =
     (case predict r s of Inl e \<Rightarrow> Inl e | Inr s' \<Rightarrow> predict_frames rs s')"

text \<open>A run of scale updates, one flag per step.\<close>

fun updateScale_run :: "bool list \<Rightarrow> gesture_state \<Rightarrow> gesture_state" where
  "updateScale_run [] s = s"
| "updateScale_run (b # bs) s = updateScale_run bs (updateScale b s)"

text \<open>Two sample hands of 21 landmarks: a clenched one (every landmark at the same
  point) and a stretched one (wrist at the origin, every other landmark at distance 1).\<close>

definition fist_hand :: "landmark list" where
  "fist_hand = replicate 21 (Landmark 0.5 0.5 0)"

definition open_hand :: "landmark list" where
  "open_hand = (replicate 21 (Landmark 1 0 0))[0 := Landmark 0 0 0]"

section \<open>The shared types and constants\<close>

text \<open>
  \<open>OrnamentData\<close> and \<open>PhotoItem\<close> both carry a \<open>scatterPos\<close> and a \<open>treePos\<close>; the two
  records extend a common one, so that the two fields keep their names. An ornament's
  \<open>id\<close> and \<open>type\<close> are the fields \<open>ornament_id\<close> and \<open>ornament_type\<close>. A photo's \<open>id\<close> is the
  decimal string of \<open>Date.now()\<close>; the field \<open>photo_id\<close> keeps the number, which is what
  \<open>parseInt\<close> reads back. \<open>WHITE_FFFFFF\<close> is the colour \<open>new THREE.Color('#FFFFFF')\<close> of the
  candy canes.
\<close>

definition TREE_HEIGHT :: real where "TREE_HEIGHT = 18"
definition TREE_RADIUS :: real where "TREE_RADIUS = 6.5"
definition SCATTER_RADIUS :: real where "SCATTER_RADIUS = 35"
definition FOLIAGE_COUNT :: nat where "FOLIAGE_COUNT = 24000"
definition ORNAMENT_COUNT :: nat where "ORNAMENT_COUNT = 600"

datatype ornament_type = Box | Sphere | Star | Icicle | CandyCane | Bell | Snowflake

datatype color =
  EMERALD_DEEP | EMERALD_LIGHT | GOLD_METALLIC | GOLD_ROSE | WHITE_WARM | RED_RUBY | ICE_BLUE
  | WHITE_FFFFFF

record entity =
  scatterPos :: vec3
  treePos :: vec3

record OrnamentData = entity +
  ornament_id :: nat
  ornament_type :: ornament_type
  color :: color
  secondaryColor :: "color option"
  weight :: real
  scale :: real
  rotationSpeed :: real

record PhotoItem = entity +
  photo_id :: nat
  url :: string
  photo_rotationSpeed :: real
  aspectRatio :: real

section \<open>The cone\<close>

text \<open>
  The three generators compute the radius of the cone at a height with the same
  expression; \<open>distanceFromAxis\<close> is the distance of a point from the vertical axis.
\<close>

definition normalizedY :: "real \<Rightarrow> real" where
  "normalizedY y = (y + TREE_HEIGHT / 2) / TREE_HEIGHT"

definition coneRadiusAtY :: "real \<Rightarrow> real" where
  "coneRadiusAtY y = TREE_RADIUS * (1.0 - normalizedY y)"

definition distanceFromAxis :: "vec3 \<Rightarrow> real" where
  "distanceFromAxis p = sqrt (vx p * vx p + vz p * vz p)"

section \<open>Foliage: the geometry\<close>

text \<open>
  The arrays of the foliage are flat: three numbers per particle in \<open>positions\<close> and
  \<open>scatterPositions\<close>. \<open>read3 arr i\<close> is the point stored for particle \<open>i\<close>. One pass of
  the loop takes eight draws. The component runs the loop with \<open>FOLIAGE_COUNT\<close>.
\<close>

definition read3 :: "real list \<Rightarrow> nat \<Rightarrow> vec3" where
  "read3 arr i = Vector3 (arr ! (i * 3)) (arr ! (i * 3 + 1)) (arr ! (i * 3 + 2))"

record foliage_geometry =
  positions :: "real list"
  scatterPositions :: "real list"
  randoms :: "real list"
  sizes :: "real list"

definition foliage_body :: "(nat \<Rightarrow> real) \<Rightarrow> nat \<Rightarrow> nat \<Rightarrow> foliage_geometry \<Rightarrow> foliage_geometry" where
  "foliage_body rng k i g =
     (let y = rng k * TREE_HEIGHT - TREE_HEIGHT / 2;
          normY = (y + TREE_HEIGHT / 2) / TREE_HEIGHT;
          maxRadiusAtY = TREE_RADIUS * (1.0 - normY);
          rBias = 0.4 + 0.6 * sqrt (rng (k + 1));
          radius = maxRadiusAtY * rBias;
          angle = real i * 2.39996 + rng (k + 2) * 0.1;
          tx = cos angle * radius;
          tz = sin angle * radius;
          ty = y;
          u = rng (k + 3);
          v = rng (k + 4);
          theta = 2 * pi * u;
          phi = arccos (2 * v - 1);
          r = SCATTER_RADIUS * (0.5 + 0.5 * root 3 (rng (k + 5)));
          sizeBase = 0.15 + rng (k + 7) * 0.25
      in g\<lparr>positions := (positions g)[i * 3 := tx, i * 3 + 1 := ty, i * 3 + 2 := tz],
            scatterPositions := (scatterPositions g)
               [i * 3 := r * sin phi * cos theta, i * 3 + 1 := r * sin phi * sin theta,
                i * 3 + 2 := r * cos phi],
            randoms := (randoms g)[i := rng (k + 6)],
            sizes := (sizes g)[i := sizeBase * (1.2 - normY * 0.4)]\<rparr>)"

function foliage_loop :: "(nat \<Rightarrow> real) \<Rightarrow> nat \<Rightarrow> nat \<Rightarrow> nat \<Rightarrow> foliage_geometry \<Rightarrow> foliage_geometry" where
  "foliage_loop rng count i k g =
     (if i < count then foliage_loop rng count (i + 1) (k + 8) (foliage_body rng k i g) else g)"
  by pat_completeness auto
termination
  by (relation "measure (\<lambda>(rng, count, i, k, g). count - i)") auto

definition Foliage_geometry :: "(nat \<Rightarrow> real) \<Rightarrow> nat \<Rightarrow> foliage_geometry" where
  "Foliage_geometry rng count =
     foliage_loop rng count 0 0
       \<lparr>positions = replicate (count * 3) 0, scatterPositions = replicate (count * 3) 0,
        randoms = replicate count 0, sizes = replicate count 0\<rparr>"

definition Foliage_data :: "(nat \<Rightarrow> real) \<Rightarrow> foliage_geometry" where
  "Foliage_data rng = Foliage_geometry rng FOLIAGE_COUNT"

section \<open>App: the tree position of a photo\<close>

definition calculateTreePos :: "(nat \<Rightarrow> real) \<Rightarrow> nat \<Rightarrow> nat \<Rightarrow> vec3" where
  "calculateTreePos rng k index =
     (let h = TREE_HEIGHT;
          y = rng k * (h - 4) - (h / 2 - 2);
          normY = (y + h / 2) / h;
          rBase = TREE_RADIUS * (1.0 - normY);
          r = rBase * 1.25;
          theta = rng (k + 1) * pi * 2
      in Vector3 (cos theta * r) y (sin theta * r))"

section \<open>Ornaments: collision-aware placement\<close>

record placedItem =
  pos :: vec3
  radius :: real

fun isColliding :: "placedItem list \<Rightarrow> vec3 \<Rightarrow> real \<Rightarrow> bool" where
  "isColliding [] p r = False"
| "isColliding (other # rest) p r =
     (if distanceTo p (pos other) < (r + radius other) * 0.85 then True
      else isColliding rest p r)"

text \<open>
  One pass through the body of the retry loop, up to the collision check: the candidate
  it samples, and the index of the next unused draw. \<open>chooseType\<close> is the chain on
  \<open>typeRand\<close>; \<open>typeProperties\<close> is the chain on \<open>type\<close> with the draws each branch makes
  (a golden sphere draws once more and may turn into a bell), followed by the bell
  block; \<open>sampleCandidate\<close> adds the position on the cone.
\<close>

record candidate =
  c_type :: ornament_type
  c_weight :: real
  c_scale :: real
  c_color :: color
  c_secondaryColor :: "color option"
  c_collisionRadius :: real
  c_treePos :: vec3
  c_next :: nat

definition chooseType :: "real \<Rightarrow> ornament_type" where
  "chooseType typeRand =
     (if typeRand < 0.30 then Sphere
      else if typeRand < 0.50 then Box
      else if typeRand < 0.65 then Icicle
      else if typeRand < 0.80 then CandyCane
      else Snowflake)"

definition typeProperties :: "(nat \<Rightarrow> real) \<Rightarrow> nat \<Rightarrow> ornament_type \<Rightarrow> candidate" where
  "typeProperties rng k ty =
     (let c0 = \<lparr>c_type = ty, c_weight = 0.04, c_scale = 1.0, c_color = GOLD_METALLIC,
                c_secondaryColor = None, c_collisionRadius = 0.5,
                c_treePos = Vector3 0 0 0, c_next = k\<rparr>;
          c1 =
            (if ty = Box then
               let scale = rng k * 0.4 + 0.5; cRand = rng (k + 1)
               in c0\<lparr>c_weight := 0.02, c_scale := scale, c_collisionRadius := scale * 0.7,
                     c_color := (if cRand < 0.4 then RED_RUBY
                                 else if cRand < 0.7 then EMERALD_DEEP else GOLD_METALLIC),
                     c_secondaryColor := (if cRand < 0.4 then Some GOLD_METALLIC
                                 else if cRand < 0.7 then Some GOLD_METALLIC else Some RED_RUBY),
                     c_next := k + 2\<rparr>
             else if ty = Sphere then
               let scale = rng k * 0.4 + 0.3; cRand = rng (k + 1);
                   col = (if cRand < 0.4 then GOLD_METALLIC
                          else if cRand < 0.7 then GOLD_ROSE
                          else if cRand < 0.9 then WHITE_WARM else RED_RUBY)
               in if col = GOLD_METALLIC
                  then c0\<lparr>c_type := (if rng (k + 2) < 0.4 then Bell else Sphere),
                          c_weight := 0.05, c_scale := scale, c_collisionRadius := scale,
                          c_color := col, c_next := k + 3\<rparr>
                  else c0\<lparr>c_weight := 0.05, c_scale := scale, c_collisionRadius := scale,
                          c_color := col, c_next := k + 2\<rparr>
             else if ty = Icicle then
               c0\<lparr>c_weight := 0.04, c_scale := rng k * 0.5 + 0.6, c_collisionRadius := 0.2,
                   c_color := ICE_BLUE, c_next := k + 1\<rparr>
             else if ty = CandyCane then
               c0\<lparr>c_weight := 0.04, c_scale := rng k * 0.4 + 0.6, c_collisionRadius := 0.3,
                   c_color := WHITE_FFFFFF, c_next := k + 1\<rparr>
             else if ty = Snowflake then
               let scale = rng k * 0.4 + 0.5
               in c0\<lparr>c_weight := 0.03, c_scale := scale, c_collisionRadius := scale * 0.6,
                     c_color := ICE_BLUE, c_next := k + 1\<rparr>
             else c0)
      in if c_type c1 = Bell then
           let scale = rng (c_next c1) * 0.4 + 0.5
           in c1\<lparr>c_weight := 0.03, c_scale := scale, c_collisionRadius := scale * 0.6,
                 c_color := GOLD_METALLIC, c_next := c_next c1 + 1\<rparr>
         else c1)"

definition sampleCandidate :: "(nat \<Rightarrow> real) \<Rightarrow> nat \<Rightarrow> real option \<Rightarrow> candidate" where
  "sampleCandidate rng k overrideY =
     (let typeRand = rng k;
          ty = (if overrideY \<noteq> None then Bell else chooseType typeRand);
          c = typeProperties rng (k + 1) ty;
          k1 = c_next c;
          y = (case overrideY of Some oy \<Rightarrow> oy
               | None \<Rightarrow> rng k1 * TREE_HEIGHT - TREE_HEIGHT / 2);
          k2 = (case overrideY of Some oy \<Rightarrow> k1 | None \<Rightarrow> k1 + 1);
          normY = (y + TREE_HEIGHT / 2) / TREE_HEIGHT;
          coneRadius = TREE_RADIUS * (1.0 - normY);
          angle = rng k2 * pi * 2;
          rBias = 0.9 + rng (k2 + 1) * 0.25;
          r = coneRadius * rBias;
          tx = cos angle * r;
          tz = sin angle * r
      in c\<lparr>c_treePos := Vector3 tx y tz, c_next := k2 + 2\<rparr>)"

text \<open>What the accepted branch builds from a candidate: the scatter position and the
  rotation speed take four more draws.\<close>

definition buildItem :: "(nat \<Rightarrow> real) \<Rightarrow> nat \<Rightarrow> candidate \<Rightarrow> OrnamentData" where
  "buildItem rng ident c =
     (let k = c_next c;
          sx = (rng k - 0.5) * SCATTER_RADIUS * 1.5;
          sy = (rng (k + 1) - 0.5) * SCATTER_RADIUS * 1.5;
          sz = (rng (k + 2) - 0.5) * SCATTER_RADIUS * 1.5
      in \<lparr>scatterPos = Vector3 sx sy sz, treePos = c_treePos c, ornament_id = ident,
          ornament_type = c_type c, color = c_color c, secondaryColor = c_secondaryColor c,
          weight = c_weight c, scale = c_scale c, rotationSpeed = rng (k + 3) * 2\<rparr>)"

text \<open>
  \<open>createItem\<close>: the retry loop. The result carries the item (\<open>None\<close> for \<open>null\<close>), the
  final value of \<open>attempts\<close>, the index of the next unused draw, and \<open>placedItems\<close>.
\<close>

record createItem_result =
  item :: "OrnamentData option"
  attempts :: nat
  next_draw :: nat
  placed :: "placedItem list"

definition maxAttempts :: nat where "maxAttempts = 50"

function createItem_loop ::
  "(nat \<Rightarrow> real) \<Rightarrow> nat \<Rightarrow> real option \<Rightarrow> nat \<Rightarrow> nat \<Rightarrow> placedItem list \<Rightarrow> createItem_result" where
  "createItem_loop rng ident overrideY n k placedItems =
     (if n < maxAttempts then
        let n' = n + 1; c = sampleCandidate rng k overrideY
        in if \<not> isColliding placedItems (c_treePos c) (c_collisionRadius c)
           then \<lparr>item = Some (buildItem rng ident c), attempts = n', next_draw = c_next c + 4,
                 placed = placedItems @ [\<lparr>pos = c_treePos c, radius = c_collisionRadius c\<rparr>]\<rparr>
           else createItem_loop rng ident overrideY n' (c_next c) placedItems
      else \<lparr>item = None, attempts = n, next_draw = k, placed = placedItems\<rparr>)"
  by pat_completeness auto
termination
  by (relation "measure (\<lambda>(rng, ident, overrideY, n, k, placedItems). maxAttempts - n)") auto

definition createItem ::
  "(nat \<Rightarrow> real) \<Rightarrow> nat \<Rightarrow> real option \<Rightarrow> nat \<Rightarrow> placedItem list \<Rightarrow> createItem_result" where
  "createItem rng ident overrideY k placedItems =
     createItem_loop rng ident overrideY 0 k placedItems"

text \<open>
  The state of the generation: the six arrays, \<open>placedItems\<close>, \<open>idCounter\<close> and the
  index of the next unused draw. The two loops take their counts as parameters; the
  component runs them with \<open>ORNAMENT_COUNT\<close> and 120.
\<close>

record ornaments_data =
  sData :: "OrnamentData list"
  bData :: "OrnamentData list"
  iData :: "OrnamentData list"
  cData :: "OrnamentData list"
  bellData :: "OrnamentData list"
  snowData :: "OrnamentData list"
  placedItems :: "placedItem list"
  idCounter :: nat
  draw :: nat

definition pushItem :: "OrnamentData \<Rightarrow> ornaments_data \<Rightarrow> ornaments_data" where
  "pushItem it d =
     (if ornament_type it = Box then d\<lparr>bData := bData d @ [it]\<rparr>
      else if ornament_type it = Sphere then d\<lparr>sData := sData d @ [it]\<rparr>
      else if ornament_type it = Icicle then d\<lparr>iData := iData d @ [it]\<rparr>
      else if ornament_type it = CandyCane then d\<lparr>cData := cData d @ [it]\<rparr>
      else if ornament_type it = Bell then d\<lparr>bellData := bellData d @ [it]\<rparr>
      else if ornament_type it = Snowflake then d\<lparr>snowData := snowData d @ [it]\<rparr>
      else d)"

function main_loop ::
  "(nat \<Rightarrow> real) \<Rightarrow> nat \<Rightarrow> nat \<Rightarrow> nat \<Rightarrow> ornaments_data \<Rightarrow> ornaments_data" where
  "main_loop rng targetCount i placedCount d =
     (if real i < real targetCount * 1.5 \<and> placedCount < targetCount then
        let res = createItem rng (idCounter d) None (draw d) (placedItems d);
            d1 = d\<lparr>idCounter := idCounter d + 1, draw := next_draw res,
                   placedItems := placed res\<rparr>
        in case item res of
             Some it \<Rightarrow> main_loop rng targetCount (i + 1) (placedCount + 1) (pushItem it d1)
           | None \<Rightarrow> main_loop rng targetCount (i + 1) placedCount d1
      else d)"
  by pat_completeness auto
termination
  by (relation "measure (\<lambda>(rng, targetCount, i, placedCount, d). 2 * targetCount - i)")
     (auto simp: field_simps)

function filler_loop ::
  "(nat \<Rightarrow> real) \<Rightarrow> nat \<Rightarrow> nat \<Rightarrow> nat \<Rightarrow> ornaments_data \<Rightarrow> ornaments_data" where
  "filler_loop rng extraCount i extraPlaced d =
     (if real i < real extraCount * 1.5 \<and> extraPlaced < extraCount then
        let bottomY = rng (draw d) * 4.0 - TREE_HEIGHT / 2;
            res = createItem rng (idCounter d) (Some bottomY) (draw d + 1) (placedItems d);
            d1 = d\<lparr>idCounter := idCounter d + 1, draw := next_draw res,
                   placedItems := placed res\<rparr>
        in case item res of
             Some it \<Rightarrow>
               let it' = it\<lparr>ornament_type := Bell, scale := 0.7,
                            color := (if rng (draw d1) > 0.5 then GOLD_METALLIC else GOLD_ROSE)\<rparr>
               in filler_loop rng extraCount (i + 1) (extraPlaced + 1)
                    (d1\<lparr>bellData := bellData d1 @ [it'], draw := draw d1 + 1\<rparr>)
           | None \<Rightarrow> filler_loop rng extraCount (i + 1) extraPlaced d1
      else d)"
  by pat_completeness auto
termination
  by (relation "measure (\<lambda>(rng, extraCount, i, extraPlaced, d). 2 * extraCount - i)")
     (auto simp: field_simps)

definition generateOrnaments :: "(nat \<Rightarrow> real) \<Rightarrow> nat \<Rightarrow> nat \<Rightarrow> ornaments_data" where
  "generateOrnaments rng targetCount extraCount =
     filler_loop rng extraCount 0 0
       (main_loop rng targetCount 0 0
          \<lparr>sData = [], bData = [], iData = [], cData = [], bellData = [], snowData = [],
           placedItems = [], idCounter = 0, draw = 0\<rparr>)"

definition Ornaments_data :: "(nat \<Rightarrow> real) \<Rightarrow> ornaments_data" where
  "Ornaments_data rng = generateOrnaments rng ORNAMENT_COUNT 120"

section \<open>Ornaments: the per-frame update\<close>

text \<open>
  One instanced mesh of the ornaments: whether its reference is set, its items, and its
  array of live positions (three numbers per item). A write beyond the end of a typed
  array is dropped, as \<open>xs[i := v]\<close> is beyond the end of a list. The instance matrices
  (position, scale and rotation handed to the renderer) are output only and are not part
  of the state.
\<close>

record mesh_group =
  mesh_mounted :: bool
  items :: "OrnamentData list"
  posArr :: "real list"

function updateMesh_loop :: "bool \<Rightarrow> OrnamentData list \<Rightarrow> nat \<Rightarrow> real list \<Rightarrow> real list" where
  "updateMesh_loop isTree its i arr =
     (if i < length its then
        let it = its ! i;
            target = (if isTree then treePos it else scatterPos it);
            idx = i * 3;
            speed = (if isTree then weight it else weight it * 2.5);
            a1 = arr[idx := lerp (arr ! idx) (vx target) speed];
            a2 = a1[idx + 1 := lerp (a1 ! (idx + 1)) (vy target) speed];
            a3 = a2[idx + 2 := lerp (a2 ! (idx + 2)) (vz target) speed]
        in updateMesh_loop isTree its (i + 1) a3
      else arr)"
  by pat_completeness auto
termination
  by (relation "measure (\<lambda>(isTree, its, i, arr). length its - i)") auto

definition updateMesh :: "bool \<Rightarrow> mesh_group \<Rightarrow> mesh_group" where
  "updateMesh isTree g =
     (if \<not> mesh_mounted g then g
      else g\<lparr>posArr := updateMesh_loop isTree (items g) 0 (posArr g)\<rparr>)"

record ornaments_scene =
  spheres :: mesh_group
  boxes :: mesh_group
  icicles :: mesh_group
  candyCanes :: mesh_group
  bells :: mesh_group
  snowflakes :: mesh_group

definition Ornaments_frame :: "TreeState \<Rightarrow> ornaments_scene \<Rightarrow> ornaments_scene" where
  "Ornaments_frame ts sc =
     (let isTree = (ts = TREE_SHAPE)
      in \<lparr>spheres = updateMesh isTree (spheres sc),
          boxes = updateMesh isTree (boxes sc),
          icicles = updateMesh isTree (icicles sc),
          candyCanes = updateMesh isTree (candyCanes sc),
          bells = updateMesh isTree (bells sc),
          snowflakes = updateMesh isTree (snowflakes sc)\<rparr>)"

text \<open>\<open>initPositions\<close>: the live positions start at the scatter positions.\<close>

fun initPositions :: "OrnamentData list \<Rightarrow> nat \<Rightarrow> real list \<Rightarrow> real list" where
  "initPositions [] i arr = arr"
| "initPositions (d # ds) i arr =
     initPositions ds (i + 1)
       (arr[i * 3 := vx (scatterPos d), i * 3 + 1 := vy (scatterPos d),
            i * 3 + 2 := vz (scatterPos d)])"

definition new_mesh_group :: "OrnamentData list \<Rightarrow> mesh_group" where
  "new_mesh_group its =
     \<lparr>mesh_mounted = True, items = its,
      posArr = initPositions its 0 (replicate (length its * 3) 0)\<rparr>"

section \<open>PhotoFrames: the per-frame update of one frame\<close>

text \<open>
  The group of one photo frame: its photo, whether the reference is set, and the live
  position and scale of the group (its rotation is left out). A frame reads the clock,
  the Mode, the scale signal and, when the group has a parent, the parent's world
  transform, here as the map from world to local coordinates. The photo's id is the
  decimal string of a number (\<open>Date.now().toString()\<close>), kept here as that number.
\<close>

record frame_mesh =
  photo :: PhotoItem
  group_mounted :: bool
  group_position :: vec3
  group_scale :: real

record frame_input =
  f_time :: real
  f_treeState :: TreeState
  f_globalScale :: real
  f_parent :: "(vec3 \<Rightarrow> vec3) option"

definition photo_smooth :: "bool \<Rightarrow> PhotoItem \<Rightarrow> vec3 \<Rightarrow> vec3" where
  "photo_smooth isTree ph p =
     vec_lerp p (if isTree then treePos ph else scatterPos ph) (if isTree then 0.08 else 0.02)"

definition FrameMesh_frame :: "frame_input \<Rightarrow> frame_mesh \<Rightarrow> frame_mesh" where
  "FrameMesh_frame inp m =
     (if \<not> group_mounted m then m
      else
        let isTree = (f_treeState inp = TREE_SHAPE);
            isZooming = (f_globalScale inp > 2.0);
            nextScale = lerp (group_scale m) (f_globalScale inp) 0.1;
            m1 = m\<lparr>group_scale := nextScale\<rparr>
        in case (if isZooming then f_parent inp else None) of
             Some toLocal \<Rightarrow>
               let offset = (photo_id (photo m) mod 1000) mod 10;
                   targetWorldPos = Vector3 0 4 (25 + real offset * 0.05);
                   targetLocalPos = toLocal targetWorldPos
               in m1\<lparr>group_position := vec_lerp (group_position m1) targetLocalPos 0.2\<rparr>
           | None \<Rightarrow>
               let p = photo_smooth isTree (photo m) (group_position m1)
               in if isTree
                  then m1\<lparr>group_position :=
                          Vector3 (vx p)
                            (vy p + sin (f_time inp * 2 + real (photo_id (photo m))) * 0.002)
                            (vz p)\<rparr>
                  else m1\<lparr>group_position := p\<rparr>)"

section \<open>Foliage: the per-frame update\<close>

text \<open>
  A frame of the foliage writes two uniforms of the shader and nothing else; the
  positions are blended on the GPU from the two arrays and the morph factor.
\<close>

record foliage_state =
  geometry :: foliage_geometry
  shader_mounted :: bool
  uTime :: real
  uMorphFactor :: real

definition Foliage_frame :: "real \<Rightarrow> TreeState \<Rightarrow> foliage_state \<Rightarrow> foliage_state" where
  "Foliage_frame t ts f =
     (if shader_mounted f then
        let targetFactor = (if ts = TREE_SHAPE then 1.0 else 0.0)
        in f\<lparr>uTime := t, uMorphFactor := lerp (uMorphFactor f) targetFactor 0.03\<rparr>
      else f)"

section \<open>The animated scene\<close>

text \<open>The three animated collections together, and a run of frames.\<close>

record scene =
  ornaments :: ornaments_scene
  photos :: "frame_mesh list"
  foliage :: foliage_state

definition scene_frame :: "frame_input \<Rightarrow> scene \<Rightarrow> scene" where
  "scene_frame inp sc =
     \<lparr>ornaments = Ornaments_frame (f_treeState inp) (ornaments sc),
      photos = map (FrameMesh_frame inp) (photos sc),
      foliage = Foliage_frame (f_time inp) (f_treeState inp) (foliage sc)\<rparr>"

fun scene_frames :: "frame_input list \<Rightarrow> scene \<Rightarrow> scene" where
  "scene_frames [] sc = sc"
| "scene_frames (inp # inps) sc = scene_frames inps (scene_frame inp sc)"


section \<open>Notions used in the statements\<close>

text \<open>
  All ornaments of the six arrays; the index of the first draw of each attempt of
  \<open>createItem\<close> when every earlier attempt collided; a run of frames of one mesh, one Mode
  per frame.
\<close>

definition allOrnaments :: "ornaments_data \<Rightarrow> OrnamentData list" where
  "allOrnaments d = sData d @ bData d @ iData d @ cData d @ bellData d @ snowData d"

fun attempt_start :: "(nat \<Rightarrow> real) \<Rightarrow> real option \<Rightarrow> nat \<Rightarrow> nat \<Rightarrow> nat" where
  "attempt_start rng overrideY k 0 = k"
| "attempt_start rng overrideY k (Suc j) =
     c_next (sampleCandidate rng (attempt_start rng overrideY k j) overrideY)"

fun mesh_frames :: "TreeState list \<Rightarrow> mesh_group \<Rightarrow> mesh_group" where
  "mesh_frames [] g = g"
| "mesh_frames (ts # rest) g = mesh_frames rest (updateMesh (ts = TREE_SHAPE) g)"

text \<open>
  A run of frames of one photo frame and of the foliage: frame \<open>k\<close> reads the input
  \<open>inp k\<close>.
\<close>

fun FrameMesh_run :: "(nat \<Rightarrow> frame_input) \<Rightarrow> nat \<Rightarrow> frame_mesh \<Rightarrow> frame_mesh" where
  "FrameMesh_run inp 0 m = m"
| "FrameMesh_run inp (Suc k) m = FrameMesh_frame (inp k) (FrameMesh_run inp k m)"

fun Foliage_run :: "(nat \<Rightarrow> frame_input) \<Rightarrow> nat \<Rightarrow> foliage_state \<Rightarrow> foliage_state" where
  "Foliage_run inp 0 f = f"
| "Foliage_run inp (Suc k) f =
     Foliage_frame (f_time (inp k)) (f_treeState (inp k)) (Foliage_run inp k f)"

section \<open>Invariants used in the proofs\<close>

definition hugs :: "real \<Rightarrow> real \<Rightarrow> vec3 \<Rightarrow> bool" where
  "hugs lo hi p \<longleftrightarrow>
     lo * coneRadiusAtY (vy p) \<le> distanceFromAxis p \<and> distanceFromAxis p \<le> hi * coneRadiusAtY (vy p)"

definition separated :: "placedItem list \<Rightarrow> bool" where
  "separated pl \<longleftrightarrow>
     (\<forall>i<length pl. \<forall>j<length pl. i \<noteq> j \<longrightarrow>
        0.85 * (radius (pl ! i) + radius (pl ! j)) \<le> distanceTo (pos (pl ! i)) (pos (pl ! j)))"

definition placement_inv :: "ornaments_data \<Rightarrow> bool" where
  "placement_inv d \<longleftrightarrow>
     separated (placedItems d) \<and> treePos ` set (allOrnaments d) = pos ` set (placedItems d)"

definition hug_inv :: "ornaments_data \<Rightarrow> bool" where
  "hug_inv d \<longleftrightarrow> (\<forall>it\<in>set (allOrnaments d). hugs 0.9 1.15 (treePos it))"

definition weight_inv :: "ornaments_data \<Rightarrow> bool" where
  "weight_inv d \<longleftrightarrow> (\<forall>it\<in>set (allOrnaments d). 0 < weight it \<and> weight it < 1)"

definition smooth_item :: "bool \<Rightarrow> OrnamentData \<Rightarrow> vec3 \<Rightarrow> vec3" where
  "smooth_item isTree it p =
     (let target = (if isTree then treePos it else scatterPos it);
          speed = (if isTree then weight it else weight it * 2.5)
      in Vector3 (lerp (vx p) (vx target) speed) (lerp (vy p) (vy target) speed)
                 (lerp (vz p) (vz target) speed))"

section \<open>Sample data\<close>

text \<open>
  A random source that returns 0 except for one draw; the bell the generation places
  first when every draw is 0; a photo; a small scene and two frames.
\<close>

definition rng_two :: "nat \<Rightarrow> real" where
  "rng_two n = (if n = 18 then 1 / 2 else 0)"

definition sample_bell :: OrnamentData where
  "sample_bell = buildItem (\<lambda>n. 0) 0 (sampleCandidate (\<lambda>n. 0) 0 None)"

definition sample_photo :: PhotoItem where
  "sample_photo =
     \<lparr>scatterPos = Vector3 (- 35 / 2) (- 35 / 2) (- 35 / 2),
      treePos = calculateTreePos (\<lambda>n. 0) 0 0,
      photo_id = 1700000000000, url = ''data:image/png;base64,'',
      photo_rotationSpeed = 1, aspectRatio = 16 / 9\<rparr>"

definition sample_scene :: scene where
  "sample_scene =
     \<lparr>ornaments =
        \<lparr>spheres = new_mesh_group [], boxes = new_mesh_group [], icicles = new_mesh_group [],
         candyCanes = new_mesh_group [], bells = new_mesh_group [sample_bell],
         snowflakes = new_mesh_group []\<rparr>,
      photos = [\<lparr>photo = sample_photo, group_mounted = True,
                 group_position = Vector3 0 0 0, group_scale = 1\<rparr>],
      foliage = \<lparr>geometry = Foliage_geometry (\<lambda>n. 0) 1, shader_mounted = True,
                 uTime = 0, uMorphFactor = 0\<rparr>\<rparr>"

definition sample_inputs :: "frame_input list" where
  "sample_inputs =
     [\<lparr>f_time = 0, f_treeState = TREE_SHAPE, f_globalScale = 1, f_parent = None\<rparr>,
      \<lparr>f_time = 1 / 60, f_treeState = SCATTERED, f_globalScale = 10,
       f_parent = Some (\<lambda>v. v)\<rparr>]"

text \<open>
  The photo as a frame that starts at the origin and as one that starts on its
  \<open>treePos\<close>; and a clock of sixty frames a second, in TREE_SHAPE, outside the
  presentation mode.
\<close>

definition sample_frame :: frame_mesh where
  "sample_frame =
     \<lparr>photo = sample_photo, group_mounted = True, group_position = Vector3 0 0 0,
      group_scale = 1\<rparr>"

definition settled_frame :: frame_mesh where
  "settled_frame =
     \<lparr>photo = sample_photo, group_mounted = True, group_position = treePos sample_photo,
      group_scale = 1\<rparr>"

definition sixty_fps :: "nat \<Rightarrow> frame_input" where
  "sixty_fps k =
     \<lparr>f_time = real k / 60, f_treeState = TREE_SHAPE, f_globalScale = 1, f_parent = None\<rparr>"

section \<open>The scale signal\<close>

lemma updateScale_pinch [simp]:
  "pinchSmoother (updateScale True s) = pinchSmoother s + (10 - pinchSmoother s) * (1/10)"
  by (simp add: updateScale_def targetScale_def lerpSpeed_def Let_def)

lemma updateScale_release:
  "pinchSmoother (updateScale False s) =
     (if \<bar>pinchSmoother s + (1 - pinchSmoother s) * (4/10) - 1\<bar> < 5/100 then 1
      else pinchSmoother s + (1 - pinchSmoother s) * (4/10))"
  by (simp add: updateScale_def targetScale_def lerpSpeed_def Let_def)

lemma updateScale_published [simp]:
  "photoScale (updateScale b s) = pinchSmoother (updateScale b s)"
  by (simp add: updateScale_def Let_def)

lemma updateScale_treeState [simp]: "treeState (updateScale b s) = treeState s"
  by (simp add: updateScale_def Let_def)

lemma updateScale_rotationMod [simp]: "rotationMod (updateScale b s) = rotationMod s"
  by (simp add: updateScale_def Let_def)

lemma updateScale_range:
  assumes "1 \<le> pinchSmoother s" "pinchSmoother s \<le> 10"
  shows "1 \<le> pinchSmoother (updateScale b s) \<and> pinchSmoother (updateScale b s) \<le> 10"
proof (cases b)
  case True
  then show ?thesis using assms by (simp add: field_simps)
next
  case False
  then show ?thesis using assms by (simp add: updateScale_release field_simps)
qed

lemma updateScale_run_range:
  "1 \<le> pinchSmoother s \<Longrightarrow> pinchSmoother s \<le> 10 \<Longrightarrow> photoScale s = pinchSmoother s \<Longrightarrow>
   1 \<le> pinchSmoother (updateScale_run bs s) \<and> pinchSmoother (updateScale_run bs s) \<le> 10
   \<and> photoScale (updateScale_run bs s) = pinchSmoother (updateScale_run bs s)"
proof (induction bs arbitrary: s)
  case Nil
  then show ?case by simp
next
  case (Cons b bs)
  from updateScale_range[OF Cons.prems(1,2), of b]
  show ?case using Cons.IH[of "updateScale b s"] by simp
qed

text \<open>
  C10. The pinch smoother starts at 1.0 and stays in \<open>[1, 10]\<close> under every finite run of
  scale updates, whatever the pinch flag of each step; the published \<open>photoScale\<close>
  therefore stays in \<open>[1, 10]\<close> as well.
\<close>

theorem pinchSmoother_bounded:
  "1 \<le> pinchSmoother (updateScale_run bs initial_gesture_state)
   \<and> pinchSmoother (updateScale_run bs initial_gesture_state) \<le> 10
   \<and> 1 \<le> photoScale (updateScale_run bs initial_gesture_state)
   \<and> photoScale (updateScale_run bs initial_gesture_state) \<le> 10"
  using updateScale_run_range[of initial_gesture_state bs]
  by (simp add: initial_gesture_state_def)

theorem pinchSmoother_bounded_witness:
  "1 \<le> pinchSmoother (updateScale_run [True, True, False, True] initial_gesture_state)
   \<and> pinchSmoother (updateScale_run [True, True, False, True] initial_gesture_state) \<le> 10
   \<and> 1 \<le> photoScale (updateScale_run [True, True, False, True] initial_gesture_state)
   \<and> photoScale (updateScale_run [True, True, False, True] initial_gesture_state) \<le> 10"
  by (rule pinchSmoother_bounded)

lemma pinch_run_closed:
  "pinchSmoother ((updateScale True ^^ n) s) = 10 - (10 - pinchSmoother s) * (9/10) ^ n"
proof (induction n)
  case 0
  then show ?case by simp
next
  case (Suc n)
  have "pinchSmoother ((updateScale True ^^ Suc n) s)
        = pinchSmoother ((updateScale True ^^ n) s)
          + (10 - pinchSmoother ((updateScale True ^^ n) s)) * (1/10)"
    by simp
  also have "\<dots> = 10 - (10 - pinchSmoother s) * (9/10) ^ Suc n"
    unfolding Suc.IH by (simp add: field_simps)
  finally show ?case .
qed

lemma pinch_run_limit:
  "(\<lambda>n. pinchSmoother ((updateScale True ^^ n) s)) \<longlonglongrightarrow> 10"
proof -
  have "(\<lambda>n. (9/10::real) ^ n) \<longlonglongrightarrow> 0"
    using LIMSEQ_realpow_zero[of "9/10"] by simp
  then have "(\<lambda>n. 10 - (10 - pinchSmoother s) * (9/10) ^ n)
               \<longlonglongrightarrow> 10 - (10 - pinchSmoother s) * 0"
    by (intro tendsto_diff tendsto_mult tendsto_const)
  then show ?thesis by (simp add: pinch_run_closed)
qed

text \<open>
  C5. Under a sustained pinch, from any start value in \<open>[1, 10)\<close>, the scale signal grows
  strictly at every update, stays strictly below 10 at every update, and tends to 10;
  and the smoothing rate while pinching is strictly smaller than the rate of release.
\<close>

theorem sustained_pinch:
  assumes "1 \<le> pinchSmoother s" "pinchSmoother s < 10"
  shows "(\<forall>n. pinchSmoother ((updateScale True ^^ n) s)
                < pinchSmoother ((updateScale True ^^ Suc n) s)
              \<and> pinchSmoother ((updateScale True ^^ n) s) < 10)
         \<and> (\<lambda>n. pinchSmoother ((updateScale True ^^ n) s)) \<longlonglongrightarrow> 10
         \<and> lerpSpeed True < lerpSpeed False"
proof -
  have lt: "pinchSmoother ((updateScale True ^^ n) s) < 10" for n
    using assms by (simp add: pinch_run_closed)
  have inc: "pinchSmoother ((updateScale True ^^ n) s)
             < pinchSmoother ((updateScale True ^^ Suc n) s)" for n
    using lt[of n] by (simp add: field_simps)
  show ?thesis using lt inc pinch_run_limit by (simp add: lerpSpeed_def)
qed

theorem sustained_pinch_witness:
  "1 \<le> pinchSmoother initial_gesture_state \<and> pinchSmoother initial_gesture_state < 10
   \<and> (\<forall>n. pinchSmoother ((updateScale True ^^ n) initial_gesture_state)
                < pinchSmoother ((updateScale True ^^ Suc n) initial_gesture_state)
            \<and> pinchSmoother ((updateScale True ^^ n) initial_gesture_state) < 10)
   \<and> (\<lambda>n. pinchSmoother ((updateScale True ^^ n) initial_gesture_state)) \<longlonglongrightarrow> 10
   \<and> lerpSpeed True < lerpSpeed False"
proof -
  have h: "1 \<le> pinchSmoother initial_gesture_state" "pinchSmoother initial_gesture_state < 10"
    by (simp_all add: initial_gesture_state_def)
  show ?thesis using h sustained_pinch[OF h] by blast
qed

section \<open>Hands and the Mode\<close>

lemma hand_step_ok:
  assumes "20 < length h"
  shows "\<exists>f'. hand_step h f = Inr f'
           \<and> isOpen f' = (isOpen f \<or> avgDist h > 0.4)
           \<and> isFist f' = (isFist f \<or> avgDist h < 0.25)"
  using assms by (auto simp: hand_step_def Let_def)

lemma hands_loop_flags:
  "\<forall>h\<in>set hs. 20 < length h \<Longrightarrow>
   \<exists>f'. hands_loop hs f = Inr f'
      \<and> isOpen f' = (isOpen f \<or> (\<exists>h\<in>set hs. avgDist h > 0.4))
      \<and> isFist f' = (isFist f \<or> (\<exists>h\<in>set hs. avgDist h < 0.25))"
proof (induction hs arbitrary: f)
  case Nil
  then show ?case by simp
next
  case (Cons h hs)
  from Cons.prems have "20 < length h" by simp
  from hand_step_ok[OF this, of f] obtain f1 where
    f1: "hand_step h f = Inr f1" "isOpen f1 = (isOpen f \<or> avgDist h > 0.4)"
        "isFist f1 = (isFist f \<or> avgDist h < 0.25)" by blast
  from Cons.prems have "\<forall>h\<in>set hs. 20 < length h" by simp
  from Cons.IH[OF this, of f1] obtain f2 where
    f2: "hands_loop hs f1 = Inr f2"
        "isOpen f2 = (isOpen f1 \<or> (\<exists>h\<in>set hs. avgDist h > 0.4))"
        "isFist f2 = (isFist f1 \<or> (\<exists>h\<in>set hs. avgDist h < 0.25))" by blast
  show ?case using f1 f2 by auto
qed

text \<open>
  C4. On a non-empty set of hands (each with its 21 landmarks), \<open>processLandmarks\<close>
  returns normally, and the Mode it leaves is SCATTERED if some hand is open (average
  fingertip-to-wrist distance above 0.4), otherwise TREE_SHAPE if some hand is a fist
  (average distance below 0.25), otherwise the Mode it found.
\<close>

theorem processLandmarks_mode:
  assumes "landmarks \<noteq> []" and "\<forall>h\<in>set landmarks. 20 < length h"
  shows "\<exists>s'. processLandmarks landmarks s = Inr s'
           \<and> treeState s' =
               (if \<exists>h\<in>set landmarks. avgDist h > 0.4 then SCATTERED
                else if \<exists>h\<in>set landmarks. avgDist h < 0.25 then TREE_SHAPE
                else treeState s)"
proof -
  from hands_loop_flags[OF assms(2),
      of "\<lparr>isFist = False, isOpen = False, isPinching = False, totalX = 0\<rparr>"]
  obtain f where
    f: "hands_loop landmarks \<lparr>isFist = False, isOpen = False, isPinching = False, totalX = 0\<rparr>
          = Inr f"
      "isOpen f = (\<exists>h\<in>set landmarks. avgDist h > 0.4)"
      "isFist f = (\<exists>h\<in>set landmarks. avgDist h < 0.25)" by auto
  show ?thesis using assms(1) f by (simp add: processLandmarks_def Let_def)
qed

theorem processLandmarks_mode_witness:
  "[fist_hand, open_hand] \<noteq> [] \<and> 20 < length fist_hand \<and> 20 < length open_hand
   \<and> (\<exists>s'. processLandmarks [fist_hand, open_hand]
               (initial_gesture_state\<lparr>treeState := TREE_SHAPE\<rparr>) = Inr s'
          \<and> treeState s' = SCATTERED)"
  using processLandmarks_mode[of "[fist_hand, open_hand]"
          "initial_gesture_state\<lparr>treeState := TREE_SHAPE\<rparr>"]
  by (simp add: avgDist_def open_hand_def fist_hand_def hypot2_def)

section \<open>Frames without hands\<close>

lemma no_hands_frame:
  "r = None \<or> r = Some [] \<Longrightarrow> predict r s = Inr (updateScale False (s\<lparr>rotationMod := 0\<rparr>))"
  by (auto simp: predict_def processLandmarks_def)

lemma release_bound:
  assumes "1 \<le> pinchSmoother s" "pinchSmoother s \<le> 1 + d"
  shows "1 \<le> pinchSmoother (updateScale False s)
         \<and> pinchSmoother (updateScale False s) \<le> 1 + d * (6/10)"
  using assms by (simp add: updateScale_release field_simps)

lemma release_snap:
  assumes "1 \<le> pinchSmoother s" "pinchSmoother s < 1 + 1/12"
  shows "pinchSmoother (updateScale False s) = 1"
  using assms by (simp add: updateScale_release field_simps)

lemma no_hands_frames_bound:
  "\<forall>r\<in>set rs. r = None \<or> r = Some [] \<Longrightarrow> 1 \<le> pinchSmoother s \<Longrightarrow> pinchSmoother s \<le> 1 + d \<Longrightarrow>
   \<exists>s'. predict_frames rs s = Inr s' \<and> 1 \<le> pinchSmoother s'
        \<and> pinchSmoother s' \<le> 1 + d * (6/10) ^ length rs"
proof (induction rs arbitrary: s d)
  case Nil
  then show ?case by simp
next
  case (Cons r rs)
  let ?s1 = "updateScale False (s\<lparr>rotationMod := 0\<rparr>)"
  from Cons.prems have r: "predict r s = Inr ?s1" by (simp add: no_hands_frame)
  from Cons.prems have b: "1 \<le> pinchSmoother ?s1" "pinchSmoother ?s1 \<le> 1 + d * (6/10)"
    using release_bound[of "s\<lparr>rotationMod := 0\<rparr>" d] by simp_all
  from Cons.prems have "\<forall>r\<in>set rs. r = None \<or> r = Some []" by simp
  from Cons.IH[OF this b] obtain s' where
    "predict_frames rs ?s1 = Inr s'" "1 \<le> pinchSmoother s'"
    "pinchSmoother s' \<le> 1 + d * (6/10) * (6/10) ^ length rs" by blast
  then show ?case using r by (simp add: mult.assoc)
qed

lemma predict_frames_snoc:
  "predict_frames (rs @ [r]) s =
     (case predict_frames rs s of Inl e \<Rightarrow> Inl e | Inr s' \<Rightarrow> predict r s')"
  by (induction rs arbitrary: s) (auto split: sum.splits)

text \<open>
  C6. Thirty consecutive frames without a hand (the detector reports no landmark array
  or an empty one), from any scale value in \<open>[1, 10]\<close>: every frame returns normally, and
  afterwards the scale signal is exactly 1.0 (so within 0.05 of 1.0) and the rotation
  bias is 0.
\<close>

theorem no_hands_30_frames:
  assumes "length rs = 30" and "\<forall>r\<in>set rs. r = None \<or> r = Some []"
    and "1 \<le> pinchSmoother s" and "pinchSmoother s \<le> 10"
  shows "\<exists>s'. predict_frames rs s = Inr s' \<and> pinchSmoother s' = 1 \<and> photoScale s' = 1
           \<and> \<bar>photoScale s' - 1\<bar> < 0.05 \<and> rotationMod s' = 0"
proof -
  from assms(1) have ne: "rs \<noteq> []" by auto
  then have split: "rs = butlast rs @ [last rs]" by simp
  have len: "length (butlast rs) = 29" using assms(1) by simp
  have all: "\<forall>r\<in>set (butlast rs). r = None \<or> r = Some []"
    using assms(2) by (meson in_set_butlastD)
  have lastr: "last rs = None \<or> last rs = Some []"
    using assms(2) ne last_in_set by blast
  from no_hands_frames_bound[OF all assms(3), of 9] assms(4) obtain s1 where
    s1: "predict_frames (butlast rs) s = Inr s1" "1 \<le> pinchSmoother s1"
        "pinchSmoother s1 \<le> 1 + 9 * (6/10) ^ 29" using len by auto
  have "(1::real) + 9 * (6/10) ^ 29 < 1 + 1/12" by (simp add: power_divide)
  with s1(3) have lt: "pinchSmoother s1 < 1 + 1/12" by linarith
  let ?s' = "updateScale False (s1\<lparr>rotationMod := 0\<rparr>)"
  have "predict_frames rs s = predict (last rs) s1"
    using predict_frames_snoc[of "butlast rs" "last rs" s] split s1(1) by simp
  also have "\<dots> = Inr ?s'" using lastr by (simp add: no_hands_frame)
  finally have run: "predict_frames rs s = Inr ?s'" .
  have one: "pinchSmoother ?s' = 1"
    using release_snap[of "s1\<lparr>rotationMod := 0\<rparr>"] s1(2) lt by simp
  show ?thesis using run one by simp
qed

theorem no_hands_30_frames_witness:
  "length (replicate 15 None @ replicate 15 (Some [])) = 30
   \<and> set (replicate 15 None @ replicate 15 (Some [])) \<subseteq> {None, Some []}
   \<and> (\<exists>s'. predict_frames (replicate 15 None @ replicate 15 (Some []))
               (initial_gesture_state\<lparr>pinchSmoother := 10, rotationMod := 2\<rparr>) = Inr s'
          \<and> pinchSmoother s' = 1 \<and> photoScale s' = 1 \<and> rotationMod s' = 0)"
  using no_hands_30_frames[of "replicate 15 None @ replicate 15 (Some [])"
          "initial_gesture_state\<lparr>pinchSmoother := 10, rotationMod := 2\<rparr>"]
  by (auto simp add: initial_gesture_state_def)

section \<open>The cone surface\<close>

lemma polar_square:
  fixes x z r :: real
  shows "x * r * (x * r) + z * r * (z * r) = (x * x + z * z) * (r * r)"
  by algebra

lemma distanceFromAxis_polar:
  "distanceFromAxis (Vector3 (cos a * r) y (sin a * r)) = \<bar>r\<bar>"
proof -
  have "cos a * r * (cos a * r) + sin a * r * (sin a * r) = r * r"
    by (simp only: polar_square sin_cos_squared_add3 mult_1_left)
  then show ?thesis by (simp add: distanceFromAxis_def)
qed

lemma coneRadiusAtY_nonneg: "y \<le> TREE_HEIGHT / 2 \<Longrightarrow> 0 \<le> coneRadiusAtY y"
  by (simp add: coneRadiusAtY_def normalizedY_def TREE_HEIGHT_def TREE_RADIUS_def field_simps)

lemma band:
  fixes c lo hi b :: real
  assumes "0 \<le> c" "lo \<le> b" "b \<le> hi" "0 \<le> lo"
  shows "lo * c \<le> \<bar>c * b\<bar> \<and> \<bar>c * b\<bar> \<le> hi * c"
proof -
  have "0 \<le> b" using assms by linarith
  then have "\<bar>c * b\<bar> = c * b" using assms(1) by (simp add: abs_mult)
  moreover have "lo * c \<le> c * b"
    using mult_left_mono[OF assms(2) assms(1)] by (simp add: mult.commute)
  moreover have "c * b \<le> hi * c"
    using mult_left_mono[OF assms(3) assms(1)] by (simp add: mult.commute)
  ultimately show ?thesis by simp
qed

lemma sampleCandidate_treePos:
  "c_treePos (sampleCandidate rng k ov) =
     (let c = typeProperties rng (k + 1) (if ov \<noteq> None then Bell else chooseType (rng k));
          k2 = (case ov of Some oy \<Rightarrow> c_next c | None \<Rightarrow> c_next c + 1);
          y = (case ov of Some oy \<Rightarrow> oy | None \<Rightarrow> rng (c_next c) * TREE_HEIGHT - TREE_HEIGHT / 2);
          r = coneRadiusAtY y * (0.9 + rng (k2 + 1) * 0.25)
      in Vector3 (cos (rng k2 * pi * 2) * r) y (sin (rng k2 * pi * 2) * r))"
  by (simp add: sampleCandidate_def Let_def coneRadiusAtY_def normalizedY_def)

lemma sampleCandidate_hugs:
  assumes rng: "\<forall>n. 0 \<le> rng n \<and> rng n < 1"
    and ov: "case ov of None \<Rightarrow> True | Some oy \<Rightarrow> oy \<le> TREE_HEIGHT / 2"
  shows "hugs 0.9 1.15 (c_treePos (sampleCandidate rng k ov))"
proof -
  define c where "c = typeProperties rng (k + 1) (if ov \<noteq> None then Bell else chooseType (rng k))"
  define k2 where "k2 = (case ov of Some oy \<Rightarrow> c_next c | None \<Rightarrow> c_next c + 1)"
  define y where "y = (case ov of Some oy \<Rightarrow> oy | None \<Rightarrow> rng (c_next c) * TREE_HEIGHT - TREE_HEIGHT / 2)"
  define b where "b = 0.9 + rng (k2 + 1) * 0.25"
  have tp: "c_treePos (sampleCandidate rng k ov)
      = Vector3 (cos (rng k2 * pi * 2) * (coneRadiusAtY y * b)) y (sin (rng k2 * pi * 2) * (coneRadiusAtY y * b))"
    unfolding sampleCandidate_treePos Let_def c_def k2_def y_def b_def by (rule refl)
  have "y \<le> TREE_HEIGHT / 2"
  proof (cases ov)
    case None
    have "rng (c_next c) < 1" using rng by blast
    then show ?thesis using None by (simp add: y_def TREE_HEIGHT_def)
  next
    case (Some oy)
    then show ?thesis using ov by (simp add: y_def)
  qed
  then have c0: "0 \<le> coneRadiusAtY y" by (rule coneRadiusAtY_nonneg)
  have "0 \<le> rng (k2 + 1)" "rng (k2 + 1) < 1" using rng by blast+
  then have b: "0.9 \<le> b" "b \<le> 1.15" by (simp_all add: b_def)
  from band[OF c0 b] show ?thesis
    by (simp add: hugs_def tp distanceFromAxis_polar)
qed

lemma calculateTreePos_radius:
  assumes rng: "\<forall>n. 0 \<le> rng n \<and> rng n < 1"
  shows "distanceFromAxis (calculateTreePos rng k index)
         = 1.25 * coneRadiusAtY (vy (calculateTreePos rng k index))"
proof -
  define y where "y = rng k * (TREE_HEIGHT - 4) - (TREE_HEIGHT / 2 - 2)"
  have tp: "calculateTreePos rng k index
      = Vector3 (cos (rng (k + 1) * pi * 2) * (coneRadiusAtY y * 1.25)) y
                (sin (rng (k + 1) * pi * 2) * (coneRadiusAtY y * 1.25))"
    by (simp add: calculateTreePos_def Let_def y_def coneRadiusAtY_def normalizedY_def)
  have "rng k < 1" using rng by blast
  then have "y \<le> TREE_HEIGHT / 2" by (simp add: y_def TREE_HEIGHT_def)
  then have c0: "0 \<le> coneRadiusAtY y" by (rule coneRadiusAtY_nonneg)
  have d: "distanceFromAxis (calculateTreePos rng k index) = \<bar>coneRadiusAtY y * 1.25\<bar>"
    unfolding tp by (rule distanceFromAxis_polar)
  have "vy (calculateTreePos rng k index) = y" unfolding tp by simp
  then show ?thesis using c0 d by (simp add: abs_mult)
qed

subsection \<open>The foliage loop\<close>

lemma read3_update_same:
  "i * 3 + 2 < length arr \<Longrightarrow>
   read3 (arr[i * 3 := a, i * 3 + 1 := b, i * 3 + 2 := c]) i = Vector3 a b c"
  by (simp add: read3_def)

lemma read3_update_other:
  "j \<noteq> i \<Longrightarrow> read3 (arr[i * 3 := a, i * 3 + 1 := b, i * 3 + 2 := c]) j = read3 arr j"
proof -
  assume "j \<noteq> i"
  then have "j * 3 \<noteq> i * 3" "j * 3 \<noteq> i * 3 + 1" "j * 3 \<noteq> i * 3 + 2"
    "j * 3 + 1 \<noteq> i * 3" "j * 3 + 1 \<noteq> i * 3 + 1" "j * 3 + 1 \<noteq> i * 3 + 2"
    "j * 3 + 2 \<noteq> i * 3" "j * 3 + 2 \<noteq> i * 3 + 1" "j * 3 + 2 \<noteq> i * 3 + 2"
    by presburger+
  then show ?thesis by (simp add: read3_def)
qed

lemma foliage_body_length [simp]:
  "length (positions (foliage_body rng k i g)) = length (positions g)"
  by (simp add: foliage_body_def Let_def)

lemma foliage_body_positions:
  "\<exists>a b c. positions (foliage_body rng k i g)
            = (positions g)[i * 3 := a, i * 3 + 1 := b, i * 3 + 2 := c]"
proof -
  have sel: "\<And>p s r z. positions (g\<lparr>positions := p, scatterPositions := s, randoms := r,
      sizes := z\<rparr>) = p" by simp
  show ?thesis unfolding foliage_body_def Let_def sel by (intro exI, rule refl)
qed

lemma foliage_body_other:
  assumes "j \<noteq> i"
  shows "read3 (positions (foliage_body rng k i g)) j = read3 (positions g) j"
proof -
  from foliage_body_positions[of rng k i g] obtain a b c where
    eq: "positions (foliage_body rng k i g)
       = (positions g)[i * 3 := a, i * 3 + 1 := b, i * 3 + 2 := c]" by blast
  show ?thesis unfolding eq by (rule read3_update_other[OF assms])
qed

lemma foliage_body_hugs:
  assumes rng: "\<forall>n. 0 \<le> rng n \<and> rng n < 1" and len: "i * 3 + 2 < length (positions g)"
  shows "hugs 0.4 1 (read3 (positions (foliage_body rng k i g)) i)"
proof -
  define y where "y = rng k * TREE_HEIGHT - TREE_HEIGHT / 2"
  define b where "b = 0.4 + 0.6 * sqrt (rng (k + 1))"
  define a where "a = real i * 2.39996 + rng (k + 2) * 0.1"
  have "positions (foliage_body rng k i g)
        = (positions g)[i * 3 := cos a * (coneRadiusAtY y * b), i * 3 + 1 := y,
                        i * 3 + 2 := sin a * (coneRadiusAtY y * b)]"
    unfolding foliage_body_def Let_def y_def b_def a_def coneRadiusAtY_def normalizedY_def
    by simp
  then have tp: "read3 (positions (foliage_body rng k i g)) i
        = Vector3 (cos a * (coneRadiusAtY y * b)) y (sin a * (coneRadiusAtY y * b))"
    using len by (simp only: read3_update_same)
  have "rng k < 1" using rng by blast
  then have "y \<le> TREE_HEIGHT / 2" by (simp add: y_def TREE_HEIGHT_def)
  then have c0: "0 \<le> coneRadiusAtY y" by (rule coneRadiusAtY_nonneg)
  have u: "0 \<le> rng (k + 1)" "rng (k + 1) < 1" using rng by blast+
  have s0: "0 \<le> sqrt (rng (k + 1))" using u by simp
  have s1: "sqrt (rng (k + 1)) \<le> 1" using u by simp
  have b: "0.4 \<le> b" "b \<le> 1" unfolding b_def using s0 s1 by linarith+
  from band[OF c0 b] show ?thesis
    unfolding tp by (simp add: hugs_def distanceFromAxis_polar)
qed

lemma foliage_loop_hugs:
  "\<forall>n. 0 \<le> rng n \<and> rng n < 1 \<Longrightarrow> length (positions g) = count * 3 \<Longrightarrow>
   (\<forall>j<i. j < count \<longrightarrow> hugs 0.4 1 (read3 (positions g) j)) \<Longrightarrow>
   \<forall>j<count. hugs 0.4 1 (read3 (positions (foliage_loop rng count i k g)) j)"
proof (induction rng count i k g rule: foliage_loop.induct)
  case (1 rng count i k g)
  note rng = "1.prems"(1)
  show ?case
  proof (cases "i < count")
    case True
    let ?g = "foliage_body rng k i g"
    have len: "length (positions ?g) = count * 3" using "1.prems"(2) by simp
    have here: "hugs 0.4 1 (read3 (positions ?g) i)"
      using foliage_body_hugs[OF rng, of i g k] True "1.prems"(2) by simp
    have inv: "\<forall>j<i + 1. j < count \<longrightarrow> hugs 0.4 1 (read3 (positions ?g) j)"
    proof (intro allI impI)
      fix j assume j: "j < i + 1" "j < count"
      show "hugs 0.4 1 (read3 (positions ?g) j)"
      proof (cases "j = i")
        case True
        then show ?thesis using here by simp
      next
        case False
        then have "j < i" using j by simp
        then show ?thesis using "1.prems"(3) j(2) False by (simp add: foliage_body_other)
      qed
    qed
    from "1.IH"[OF True rng len inv] show ?thesis using True by simp
  next
    case False
    then show ?thesis using "1.prems"(3) by simp
  qed
qed

lemma Foliage_geometry_hugs:
  assumes rng: "\<forall>n. 0 \<le> rng n \<and> rng n < 1"
  shows "\<forall>i<count. hugs 0.4 1 (read3 (positions (Foliage_geometry rng count)) i)"
  unfolding Foliage_geometry_def
  by (rule foliage_loop_hugs[OF rng]) simp_all

section \<open>Collision-aware placement\<close>

lemma distanceTo_commute: "distanceTo p q = distanceTo q p"
proof -
  have "\<And>a b :: real. (a - b) * (a - b) = (b - a) * (b - a)" by algebra
  then show ?thesis unfolding distanceTo_def by presburger
qed

lemma isColliding_iff:
  "isColliding pl p r \<longleftrightarrow> (\<exists>other\<in>set pl. distanceTo p (pos other) < (r + radius other) * 0.85)"
  by (induction pl) auto

lemma separated_snoc:
  assumes sep: "separated pl" and free: "\<not> isColliding pl p r"
  shows "separated (pl @ [\<lparr>pos = p, radius = r\<rparr>])"
  unfolding separated_def
proof (intro allI impI)
  fix i j
  let ?pl = "pl @ [\<lparr>pos = p, radius = r\<rparr>]"
  assume i: "i < length ?pl" and j: "j < length ?pl" and ne: "i \<noteq> j"
  have far: "\<And>m. m < length pl \<Longrightarrow> (r + radius (pl ! m)) * 0.85 \<le> distanceTo p (pos (pl ! m))"
    using free unfolding isColliding_iff by (meson not_less nth_mem)
  consider (old) "i < length pl" "j < length pl"
    | (inew) "i = length pl" "j < length pl"
    | (jnew) "i < length pl" "j = length pl"
    using i j ne by (simp add: less_Suc_eq) linarith
  then show "0.85 * (radius (?pl ! i) + radius (?pl ! j))
             \<le> distanceTo (pos (?pl ! i)) (pos (?pl ! j))"
  proof cases
    case old
    then show ?thesis using sep ne by (simp add: separated_def nth_append)
  next
    case inew
    then show ?thesis using far[of j] by (simp add: nth_append mult.commute)
  next
    case jnew
    then show ?thesis using far[of i]
      by (simp add: nth_append mult.commute add.commute distanceTo_commute[of p])
  qed
qed

declare createItem_loop.simps [simp del]

lemma createItem_loop_None:
  "item (createItem_loop rng ident ov n k pl) = None \<Longrightarrow>
   placed (createItem_loop rng ident ov n k pl) = pl"
proof (induction rng ident ov n k pl rule: createItem_loop.induct)
  case (1 rng ident ov n k pl)
  show ?case
  proof (cases "n < maxAttempts")
    case True
    show ?thesis
    proof (cases "isColliding pl (c_treePos (sampleCandidate rng k ov))
                    (c_collisionRadius (sampleCandidate rng k ov))")
      case True
      with \<open>n < maxAttempts\<close> "1.IH"[OF \<open>n < maxAttempts\<close> refl refl] "1.prems"
      show ?thesis by (simp add: createItem_loop.simps[of rng ident ov n k pl] Let_def)
    next
      case False
      with \<open>n < maxAttempts\<close> "1.prems" show ?thesis by (simp add: createItem_loop.simps[of rng ident ov n k pl] Let_def)
    qed
  next
    case False
    then show ?thesis by (simp add: createItem_loop.simps[of rng ident ov n k pl])
  qed
qed

lemma createItem_loop_Some:
  "item (createItem_loop rng ident ov n k pl) = Some it \<Longrightarrow>
   \<exists>k'. it = buildItem rng ident (sampleCandidate rng k' ov)
      \<and> \<not> isColliding pl (c_treePos (sampleCandidate rng k' ov))
                           (c_collisionRadius (sampleCandidate rng k' ov))
      \<and> placed (createItem_loop rng ident ov n k pl)
          = pl @ [\<lparr>pos = c_treePos (sampleCandidate rng k' ov),
                   radius = c_collisionRadius (sampleCandidate rng k' ov)\<rparr>]"
proof (induction rng ident ov n k pl rule: createItem_loop.induct)
  case (1 rng ident ov n k pl)
  show ?case
  proof (cases "n < maxAttempts")
    case True
    show ?thesis
    proof (cases "isColliding pl (c_treePos (sampleCandidate rng k ov))
                    (c_collisionRadius (sampleCandidate rng k ov))")
      case True
      with \<open>n < maxAttempts\<close> "1.IH"[OF \<open>n < maxAttempts\<close> refl refl] "1.prems"
      show ?thesis by (simp add: createItem_loop.simps[of rng ident ov n k pl] Let_def)
    next
      case False
      with \<open>n < maxAttempts\<close> "1.prems" show ?thesis
        by (simp add: createItem_loop.simps[of rng ident ov n k pl] Let_def) blast
    qed
  next
    case False
    then have "createItem_loop rng ident ov n k pl
        = \<lparr>item = None, attempts = n, next_draw = k, placed = pl\<rparr>"
      by (simp add: createItem_loop.simps[of rng ident ov n k pl])
    then show ?thesis using "1.prems" by simp
  qed
qed

lemma createItem_loop_attempts:
  "n \<le> maxAttempts \<Longrightarrow> attempts (createItem_loop rng ident ov n k pl) \<le> maxAttempts"
proof (induction rng ident ov n k pl rule: createItem_loop.induct)
  case (1 rng ident ov n k pl)
  show ?case
  proof (cases "n < maxAttempts")
    case True
    show ?thesis
    proof (cases "isColliding pl (c_treePos (sampleCandidate rng k ov))
                    (c_collisionRadius (sampleCandidate rng k ov))")
      case True
      with \<open>n < maxAttempts\<close> "1.IH"[OF \<open>n < maxAttempts\<close> refl refl]
      show ?thesis by (simp add: createItem_loop.simps[of rng ident ov n k pl] Let_def)
    next
      case False
      with \<open>n < maxAttempts\<close> show ?thesis by (simp add: createItem_loop.simps[of rng ident ov n k pl] Let_def)
    qed
  next
    case False
    then have "createItem_loop rng ident ov n k pl
        = \<lparr>item = None, attempts = n, next_draw = k, placed = pl\<rparr>"
      by (simp add: createItem_loop.simps[of rng ident ov n k pl])
    then show ?thesis using "1.prems" by simp
  qed
qed

lemma attempt_start_shift:
  "attempt_start rng ov (c_next (sampleCandidate rng k ov)) j = attempt_start rng ov k (Suc j)"
  by (induction j) simp_all

lemma createItem_loop_exhausted:
  "n \<le> maxAttempts \<Longrightarrow>
   (\<forall>j<maxAttempts - n.
      isColliding pl (c_treePos (sampleCandidate rng (attempt_start rng ov k j) ov))
                     (c_collisionRadius (sampleCandidate rng (attempt_start rng ov k j) ov))) \<Longrightarrow>
   createItem_loop rng ident ov n k pl
     = \<lparr>item = None, attempts = maxAttempts,
        next_draw = attempt_start rng ov k (maxAttempts - n), placed = pl\<rparr>"
proof (induction rng ident ov n k pl rule: createItem_loop.induct)
  case (1 rng ident ov n k pl)
  show ?case
  proof (cases "n < maxAttempts")
    case True
    let ?c = "sampleCandidate rng k ov"
    from "1.prems"(2) True have col: "isColliding pl (c_treePos ?c) (c_collisionRadius ?c)"
      by (metis attempt_start.simps(1) zero_less_diff)
    have rest: "\<forall>j<maxAttempts - (n + 1).
      isColliding pl (c_treePos (sampleCandidate rng (attempt_start rng ov (c_next ?c) j) ov))
        (c_collisionRadius (sampleCandidate rng (attempt_start rng ov (c_next ?c) j) ov))"
    proof (intro allI impI)
      fix j assume "j < maxAttempts - (n + 1)"
      then have "Suc j < maxAttempts - n" by simp
      with "1.prems"(2) show "isColliding pl
          (c_treePos (sampleCandidate rng (attempt_start rng ov (c_next ?c) j) ov))
          (c_collisionRadius (sampleCandidate rng (attempt_start rng ov (c_next ?c) j) ov))"
        unfolding attempt_start_shift by blast
    qed
    have le: "n + 1 \<le> maxAttempts" using True by simp
    have sh: "attempt_start rng ov (c_next ?c) (maxAttempts - (n + 1))
              = attempt_start rng ov k (maxAttempts - n)"
      using True by (simp add: attempt_start_shift Suc_diff_Suc)
    from "1.IH"[OF True refl refl _ le rest] col True sh
    show ?thesis by (simp add: createItem_loop.simps[of rng ident ov n k pl] Let_def)
  next
    case False
    then have "createItem_loop rng ident ov n k pl
        = \<lparr>item = None, attempts = n, next_draw = k, placed = pl\<rparr>"
      by (simp add: createItem_loop.simps[of rng ident ov n k pl])
    then show ?thesis using "1.prems"(1) False by simp
  qed
qed

subsection \<open>Invariants of the two generation loops\<close>

declare main_loop.simps [simp del]

declare filler_loop.simps [simp del]

lemma main_loop_invariant:
  assumes base: "P d"
    and some: "\<And>d it. P d \<Longrightarrow>
        item (createItem rng (idCounter d) None (draw d) (placedItems d)) = Some it \<Longrightarrow>
        P (pushItem it (d\<lparr>idCounter := idCounter d + 1,
              draw := next_draw (createItem rng (idCounter d) None (draw d) (placedItems d)),
              placedItems := placed (createItem rng (idCounter d) None (draw d) (placedItems d))\<rparr>))"
    and none: "\<And>d. P d \<Longrightarrow>
        item (createItem rng (idCounter d) None (draw d) (placedItems d)) = None \<Longrightarrow>
        P (d\<lparr>idCounter := idCounter d + 1,
              draw := next_draw (createItem rng (idCounter d) None (draw d) (placedItems d)),
              placedItems := placed (createItem rng (idCounter d) None (draw d) (placedItems d))\<rparr>)"
  shows "P (main_loop rng targetCount i placedCount d)"
  using base
proof (induction "2 * targetCount - i" arbitrary: i placedCount d rule: less_induct)
  case less
  show ?case
  proof (cases "real i < real targetCount * 1.5 \<and> placedCount < targetCount")
    case True
    then have dec: "2 * targetCount - (i + 1) < 2 * targetCount - i" by (auto simp: field_simps)
    show ?thesis
    proof (cases "item (createItem rng (idCounter d) None (draw d) (placedItems d))")
      case None
      from less.hyps[OF dec none[OF less.prems None]] True None
      show ?thesis by (simp add: main_loop.simps[of rng targetCount i placedCount d] Let_def)
    next
      case (Some it)
      from less.hyps[OF dec some[OF less.prems Some]] True Some
      show ?thesis by (simp add: main_loop.simps[of rng targetCount i placedCount d] Let_def)
    qed
  next
    case False
    then show ?thesis using less.prems
      by (auto simp add: main_loop.simps[of rng targetCount i placedCount d])
  qed
qed

lemma filler_loop_invariant:
  assumes base: "P d"
    and some: "\<And>d it. P d \<Longrightarrow>
        item (createItem rng (idCounter d) (Some (rng (draw d) * 4.0 - TREE_HEIGHT / 2))
               (draw d + 1) (placedItems d)) = Some it \<Longrightarrow>
        P (d\<lparr>idCounter := idCounter d + 1,
              placedItems := placed (createItem rng (idCounter d)
                        (Some (rng (draw d) * 4.0 - TREE_HEIGHT / 2)) (draw d + 1) (placedItems d)),
              bellData := bellData d @
                [it\<lparr>ornament_type := Bell, scale := 0.7,
                    color := (if rng (next_draw (createItem rng (idCounter d)
                        (Some (rng (draw d) * 4.0 - TREE_HEIGHT / 2)) (draw d + 1) (placedItems d))) > 0.5
                      then GOLD_METALLIC else GOLD_ROSE)\<rparr>],
              draw := next_draw (createItem rng (idCounter d)
                        (Some (rng (draw d) * 4.0 - TREE_HEIGHT / 2)) (draw d + 1) (placedItems d)) + 1\<rparr>)"
    and none: "\<And>d. P d \<Longrightarrow>
        item (createItem rng (idCounter d) (Some (rng (draw d) * 4.0 - TREE_HEIGHT / 2))
               (draw d + 1) (placedItems d)) = None \<Longrightarrow>
        P (d\<lparr>idCounter := idCounter d + 1,
              draw := next_draw (createItem rng (idCounter d)
                        (Some (rng (draw d) * 4.0 - TREE_HEIGHT / 2)) (draw d + 1) (placedItems d)),
              placedItems := placed (createItem rng (idCounter d)
                        (Some (rng (draw d) * 4.0 - TREE_HEIGHT / 2)) (draw d + 1) (placedItems d))\<rparr>)"
  shows "P (filler_loop rng extraCount i extraPlaced d)"
  using base
proof (induction "2 * extraCount - i" arbitrary: i extraPlaced d rule: less_induct)
  case less
  let ?res = "createItem rng (idCounter d) (Some (rng (draw d) * 4.0 - TREE_HEIGHT / 2))
               (draw d + 1) (placedItems d)"
  show ?case
  proof (cases "real i < real extraCount * 1.5 \<and> extraPlaced < extraCount")
    case True
    then have dec: "2 * extraCount - (i + 1) < 2 * extraCount - i" by (auto simp: field_simps)
    show ?thesis
    proof (cases "item ?res")
      case None
      from less.hyps[OF dec none[OF less.prems None]] True None
      show ?thesis by (simp add: filler_loop.simps[of rng extraCount i extraPlaced d] Let_def)
    next
      case (Some it)
      from less.hyps[OF dec some[OF less.prems Some]] True Some
      show ?thesis
        by (simp add: filler_loop.simps[of rng extraCount i extraPlaced d] Let_def
              split del: if_split)
    qed
  next
    case False
    then show ?thesis using less.prems
      by (auto simp add: filler_loop.simps[of rng extraCount i extraPlaced d])
  qed
qed

lemma sampleCandidate_type:
  "c_type (sampleCandidate rng k ov) \<noteq> Star"
  by (simp add: sampleCandidate_def typeProperties_def chooseType_def Let_def)

lemma buildItem_fields [simp]:
  "treePos (buildItem rng ident c) = c_treePos c"
  "ornament_type (buildItem rng ident c) = c_type c"
  "weight (buildItem rng ident c) = c_weight c"
  by (simp_all add: buildItem_def Let_def)

lemma createItem_Some:
  assumes "item (createItem rng ident ov k pl) = Some it"
  shows "\<exists>k'. it = buildItem rng ident (sampleCandidate rng k' ov)
      \<and> \<not> isColliding pl (c_treePos (sampleCandidate rng k' ov))
                           (c_collisionRadius (sampleCandidate rng k' ov))
      \<and> placed (createItem rng ident ov k pl)
          = pl @ [\<lparr>pos = c_treePos (sampleCandidate rng k' ov),
                   radius = c_collisionRadius (sampleCandidate rng k' ov)\<rparr>]"
  using assms unfolding createItem_def by (rule createItem_loop_Some)

lemma createItem_None:
  "item (createItem rng ident ov k pl) = None \<Longrightarrow> placed (createItem rng ident ov k pl) = pl"
  unfolding createItem_def by (rule createItem_loop_None)

lemma allOrnaments_pushItem:
  "ornament_type it \<noteq> Star \<Longrightarrow> set (allOrnaments (pushItem it d)) = insert it (set (allOrnaments d))"
  by (cases "ornament_type it") (auto simp: pushItem_def allOrnaments_def)

lemma allOrnaments_bookkeeping [simp]:
  "allOrnaments (idCounter_update f d) = allOrnaments d"
  "allOrnaments (draw_update g d) = allOrnaments d"
  "allOrnaments (placedItems_update h d) = allOrnaments d"
  by (simp_all add: allOrnaments_def)

lemma allOrnaments_bell [simp]:
  "set (allOrnaments (d\<lparr>bellData := bellData d @ [it]\<rparr>)) = insert it (set (allOrnaments d))"
  by (auto simp: allOrnaments_def)

lemma allOrnaments_bell' [simp]:
  "set (allOrnaments (d\<lparr>idCounter := a, placedItems := c, bellData := bellData d @ [it], draw := b\<rparr>))
     = insert it (set (allOrnaments d))"
  by (auto simp: allOrnaments_def)

lemma placedItems_pushItem [simp]: "placedItems (pushItem it d) = placedItems d"
  by (simp add: pushItem_def)

lemma placement_inv_main: "placement_inv d \<Longrightarrow> placement_inv (main_loop rng targetCount i placedCount d)"
proof (rule main_loop_invariant[where P = placement_inv])
  fix d it
  assume inv: "placement_inv d"
    and some: "item (createItem rng (idCounter d) None (draw d) (placedItems d)) = Some it"
  from createItem_Some[OF some] obtain k' where
    it: "it = buildItem rng (idCounter d) (sampleCandidate rng k' None)"
    and free: "\<not> isColliding (placedItems d) (c_treePos (sampleCandidate rng k' None))
                           (c_collisionRadius (sampleCandidate rng k' None))"
    and pl: "placed (createItem rng (idCounter d) None (draw d) (placedItems d))
          = placedItems d @ [\<lparr>pos = c_treePos (sampleCandidate rng k' None),
                   radius = c_collisionRadius (sampleCandidate rng k' None)\<rparr>]" by blast
  have ty: "ornament_type it \<noteq> Star" by (simp add: it sampleCandidate_type)
  show "placement_inv (pushItem it (d\<lparr>idCounter := idCounter d + 1,
              draw := next_draw (createItem rng (idCounter d) None (draw d) (placedItems d)),
              placedItems := placed (createItem rng (idCounter d) None (draw d) (placedItems d))\<rparr>))"
    using inv separated_snoc[OF _ free]
    unfolding placement_inv_def allOrnaments_pushItem[OF ty] pl
    by (simp add: it)
next
  fix d
  assume "placement_inv d"
    and "item (createItem rng (idCounter d) None (draw d) (placedItems d)) = None"
  then show "placement_inv (d\<lparr>idCounter := idCounter d + 1,
              draw := next_draw (createItem rng (idCounter d) None (draw d) (placedItems d)),
              placedItems := placed (createItem rng (idCounter d) None (draw d) (placedItems d))\<rparr>)"
    by (simp add: placement_inv_def createItem_None)
qed

lemma placement_inv_filler:
  "placement_inv d \<Longrightarrow> placement_inv (filler_loop rng extraCount i extraPlaced d)"
proof (rule filler_loop_invariant[where P = placement_inv])
  fix d :: ornaments_data and it
  let ?ov = "Some (rng (draw d) * 4.0 - TREE_HEIGHT / 2)"
  let ?res = "createItem rng (idCounter d) ?ov (draw d + 1) (placedItems d)"
  assume inv: "placement_inv d" and some: "item ?res = Some it"
  from createItem_Some[OF some] obtain k' where
    it: "it = buildItem rng (idCounter d) (sampleCandidate rng k' ?ov)"
    and free: "\<not> isColliding (placedItems d) (c_treePos (sampleCandidate rng k' ?ov))
                           (c_collisionRadius (sampleCandidate rng k' ?ov))"
    and pl: "placed ?res
          = placedItems d @ [\<lparr>pos = c_treePos (sampleCandidate rng k' ?ov),
                   radius = c_collisionRadius (sampleCandidate rng k' ?ov)\<rparr>]" by blast
  show "placement_inv (d\<lparr>idCounter := idCounter d + 1,
              placedItems := placed ?res,
              bellData := bellData d @
                [it\<lparr>ornament_type := Bell, scale := 0.7,
                    color := (if rng (next_draw ?res) > 0.5 then GOLD_METALLIC else GOLD_ROSE)\<rparr>],
              draw := next_draw ?res + 1\<rparr>)"
    using inv separated_snoc[OF _ free]
    unfolding placement_inv_def allOrnaments_bell' pl
    by (simp add: it)
next
  fix d :: ornaments_data
  let ?ov = "Some (rng (draw d) * 4.0 - TREE_HEIGHT / 2)"
  let ?res = "createItem rng (idCounter d) ?ov (draw d + 1) (placedItems d)"
  assume "placement_inv d" and "item ?res = None"
  then show "placement_inv (d\<lparr>idCounter := idCounter d + 1, draw := next_draw ?res,
              placedItems := placed ?res\<rparr>)"
    by (simp add: placement_inv_def createItem_None)
qed

lemma placement_inv_generate: "placement_inv (generateOrnaments rng targetCount extraCount)"
  unfolding generateOrnaments_def
  by (intro placement_inv_filler placement_inv_main)
     (simp add: placement_inv_def separated_def allOrnaments_def)

lemma hug_inv_main:
  assumes rng: "\<forall>n. 0 \<le> rng n \<and> rng n < 1"
  shows "hug_inv d \<Longrightarrow> hug_inv (main_loop rng targetCount i placedCount d)"
proof (rule main_loop_invariant[where P = hug_inv])
  fix d it
  assume inv: "hug_inv d"
    and some: "item (createItem rng (idCounter d) None (draw d) (placedItems d)) = Some it"
  from createItem_Some[OF some] obtain k' where
    it: "it = buildItem rng (idCounter d) (sampleCandidate rng k' None)" by blast
  have ty: "ornament_type it \<noteq> Star" by (simp add: it sampleCandidate_type)
  have "hugs 0.9 1.15 (treePos it)"
    unfolding it buildItem_fields by (rule sampleCandidate_hugs[OF rng]) simp
  then show "hug_inv (pushItem it (d\<lparr>idCounter := idCounter d + 1,
              draw := next_draw (createItem rng (idCounter d) None (draw d) (placedItems d)),
              placedItems := placed (createItem rng (idCounter d) None (draw d) (placedItems d))\<rparr>))"
    using inv unfolding hug_inv_def allOrnaments_pushItem[OF ty] by simp
next
  fix d
  assume "hug_inv d"
  then show "hug_inv (d\<lparr>idCounter := idCounter d + 1,
              draw := next_draw (createItem rng (idCounter d) None (draw d) (placedItems d)),
              placedItems := placed (createItem rng (idCounter d) None (draw d) (placedItems d))\<rparr>)"
    by (simp add: hug_inv_def)
qed

lemma hug_inv_filler:
  assumes rng: "\<forall>n. 0 \<le> rng n \<and> rng n < 1"
  shows "hug_inv d \<Longrightarrow> hug_inv (filler_loop rng extraCount i extraPlaced d)"
proof (rule filler_loop_invariant[where P = hug_inv])
  fix d :: ornaments_data and it
  let ?ov = "Some (rng (draw d) * 4.0 - TREE_HEIGHT / 2)"
  let ?res = "createItem rng (idCounter d) ?ov (draw d + 1) (placedItems d)"
  assume inv: "hug_inv d" and some: "item ?res = Some it"
  from createItem_Some[OF some] obtain k' where
    it: "it = buildItem rng (idCounter d) (sampleCandidate rng k' ?ov)" by blast
  have "rng (draw d) < 1" using rng by blast
  then have low: "rng (draw d) * 4.0 - TREE_HEIGHT / 2 \<le> TREE_HEIGHT / 2"
    unfolding TREE_HEIGHT_def by simp
  have "hugs 0.9 1.15 (treePos it)"
    unfolding it buildItem_fields using low by (intro sampleCandidate_hugs[OF rng]) simp
  then show "hug_inv (d\<lparr>idCounter := idCounter d + 1,
              placedItems := placed ?res,
              bellData := bellData d @
                [it\<lparr>ornament_type := Bell, scale := 0.7,
                    color := (if rng (next_draw ?res) > 0.5 then GOLD_METALLIC else GOLD_ROSE)\<rparr>],
              draw := next_draw ?res + 1\<rparr>)"
    using inv unfolding hug_inv_def allOrnaments_bell' by simp
next
  fix d :: ornaments_data
  let ?ov = "Some (rng (draw d) * 4.0 - TREE_HEIGHT / 2)"
  let ?res = "createItem rng (idCounter d) ?ov (draw d + 1) (placedItems d)"
  assume "hug_inv d"
  then show "hug_inv (d\<lparr>idCounter := idCounter d + 1, draw := next_draw ?res,
              placedItems := placed ?res\<rparr>)"
    by (simp add: hug_inv_def)
qed

lemma hug_inv_generate:
  assumes rng: "\<forall>n. 0 \<le> rng n \<and> rng n < 1"
  shows "hug_inv (generateOrnaments rng targetCount extraCount)"
  unfolding generateOrnaments_def
  by (intro hug_inv_filler[OF rng] hug_inv_main[OF rng]) (simp add: hug_inv_def allOrnaments_def)

lemma sampleCandidate_weight:
  "0 < c_weight (sampleCandidate rng k ov) \<and> c_weight (sampleCandidate rng k ov) < 1"
  by (simp add: sampleCandidate_def typeProperties_def chooseType_def Let_def)

lemma weight_inv_main: "weight_inv d \<Longrightarrow> weight_inv (main_loop rng targetCount i placedCount d)"
proof (rule main_loop_invariant[where P = weight_inv])
  fix d it
  assume inv: "weight_inv d"
    and some: "item (createItem rng (idCounter d) None (draw d) (placedItems d)) = Some it"
  from createItem_Some[OF some] obtain k' where
    it: "it = buildItem rng (idCounter d) (sampleCandidate rng k' None)" by blast
  have ty: "ornament_type it \<noteq> Star" by (simp add: it sampleCandidate_type)
  have "0 < weight it \<and> weight it < 1"
    unfolding it buildItem_fields by (rule sampleCandidate_weight)
  then show "weight_inv (pushItem it (d\<lparr>idCounter := idCounter d + 1,
              draw := next_draw (createItem rng (idCounter d) None (draw d) (placedItems d)),
              placedItems := placed (createItem rng (idCounter d) None (draw d) (placedItems d))\<rparr>))"
    using inv unfolding weight_inv_def allOrnaments_pushItem[OF ty] by simp
next
  fix d
  assume "weight_inv d"
  then show "weight_inv (d\<lparr>idCounter := idCounter d + 1,
              draw := next_draw (createItem rng (idCounter d) None (draw d) (placedItems d)),
              placedItems := placed (createItem rng (idCounter d) None (draw d) (placedItems d))\<rparr>)"
    by (simp add: weight_inv_def)
qed

lemma weight_inv_filler:
  "weight_inv d \<Longrightarrow> weight_inv (filler_loop rng extraCount i extraPlaced d)"
proof (rule filler_loop_invariant[where P = weight_inv])
  fix d :: ornaments_data and it
  let ?ov = "Some (rng (draw d) * 4.0 - TREE_HEIGHT / 2)"
  let ?res = "createItem rng (idCounter d) ?ov (draw d + 1) (placedItems d)"
  assume inv: "weight_inv d" and some: "item ?res = Some it"
  from createItem_Some[OF some] obtain k' where
    it: "it = buildItem rng (idCounter d) (sampleCandidate rng k' ?ov)" by blast
  have "0 < weight it \<and> weight it < 1"
    unfolding it buildItem_fields by (rule sampleCandidate_weight)
  then show "weight_inv (d\<lparr>idCounter := idCounter d + 1,
              placedItems := placed ?res,
              bellData := bellData d @
                [it\<lparr>ornament_type := Bell, scale := 0.7,
                    color := (if rng (next_draw ?res) > 0.5 then GOLD_METALLIC else GOLD_ROSE)\<rparr>],
              draw := next_draw ?res + 1\<rparr>)"
    using inv unfolding weight_inv_def allOrnaments_bell' by simp
next
  fix d :: ornaments_data
  let ?ov = "Some (rng (draw d) * 4.0 - TREE_HEIGHT / 2)"
  let ?res = "createItem rng (idCounter d) ?ov (draw d + 1) (placedItems d)"
  assume "weight_inv d"
  then show "weight_inv (d\<lparr>idCounter := idCounter d + 1, draw := next_draw ?res,
              placedItems := placed ?res\<rparr>)"
    by (simp add: weight_inv_def)
qed

lemma generated_weights:
  "\<forall>it\<in>set (allOrnaments (generateOrnaments rng targetCount extraCount)).
     0 < weight it \<and> weight it < 1"
proof -
  have "weight_inv (generateOrnaments rng targetCount extraCount)"
    unfolding generateOrnaments_def
    by (intro weight_inv_filler weight_inv_main) (simp add: weight_inv_def allOrnaments_def)
  then show ?thesis by (simp add: weight_inv_def)
qed

text \<open>
  A failed call is dropped by the generation loop: it goes on with the next index, the
  six arrays and \<open>placedItems\<close> as they were, and only \<open>idCounter\<close> and the random source
  have advanced.
\<close>

lemma main_loop_null_attempt:
  assumes "real i < real targetCount * 1.5 \<and> placedCount < targetCount"
    and "item (createItem rng (idCounter d) None (draw d) (placedItems d)) = None"
  shows "main_loop rng targetCount i placedCount d
         = main_loop rng targetCount (i + 1) placedCount
             (d\<lparr>idCounter := idCounter d + 1,
                draw := next_draw (createItem rng (idCounter d) None (draw d) (placedItems d))\<rparr>)"
  using assms createItem_None[OF assms(2)]
  by (simp add: main_loop.simps[of rng targetCount i placedCount d] Let_def)

section \<open>Concrete runs\<close>

lemma foliage_zero_point:
  "read3 (positions (Foliage_geometry (\<lambda>n. 0) 1)) 0 = Vector3 (13 / 5) (- 9) 0"
  by (simp add: Foliage_geometry_def foliage_body_def read3_def Let_def
        TREE_HEIGHT_def TREE_RADIUS_def)

lemma photo_zero_point:
  "calculateTreePos (\<lambda>n. 0) 0 0 = Vector3 (65 / 9) (- 7) 0"
  by (simp add: calculateTreePos_def Let_def TREE_HEIGHT_def TREE_RADIUS_def)

lemma distanceFromAxis_on_x: "distanceFromAxis (Vector3 a y 0) = \<bar>a\<bar>"
  by (simp add: distanceFromAxis_def)

lemma zero_candidate:
  "sampleCandidate (\<lambda>n. 0) k None
     = \<lparr>c_type = Bell, c_weight = 0.03, c_scale = 0.5, c_color = GOLD_METALLIC,
        c_secondaryColor = None, c_collisionRadius = 0.3,
        c_treePos = Vector3 (117 / 20) (- 9) 0, c_next = k + 8\<rparr>"
  by (simp add: sampleCandidate_def typeProperties_def chooseType_def Let_def
        TREE_HEIGHT_def TREE_RADIUS_def)

lemma distanceTo_along_x: "distanceTo (Vector3 a y z) (Vector3 b y z) = \<bar>a - b\<bar>"
  by (simp add: distanceTo_def)

lemma two_first:
  "sampleCandidate rng_two 0 None
     = \<lparr>c_type = Bell, c_weight = 0.03, c_scale = 0.5, c_color = GOLD_METALLIC,
        c_secondaryColor = None, c_collisionRadius = 0.3,
        c_treePos = Vector3 (117 / 20) (- 9) 0, c_next = 8\<rparr>"
  by (simp add: sampleCandidate_def typeProperties_def chooseType_def Let_def rng_two_def
        TREE_HEIGHT_def TREE_RADIUS_def)

lemma two_second:
  "sampleCandidate rng_two 12 None
     = \<lparr>c_type = Bell, c_weight = 0.03, c_scale = 0.5, c_color = GOLD_METALLIC,
        c_secondaryColor = None, c_collisionRadius = 0.3,
        c_treePos = Vector3 (- (117 / 20)) (- 9) 0, c_next = 20\<rparr>"
  by (simp add: sampleCandidate_def typeProperties_def chooseType_def Let_def rng_two_def
        TREE_HEIGHT_def TREE_RADIUS_def)

lemma two_placed:
  "placedItems (generateOrnaments rng_two 2 0)
     = [\<lparr>pos = Vector3 (117 / 20) (- 9) 0, radius = 0.3\<rparr>,
        \<lparr>pos = Vector3 (- (117 / 20)) (- 9) 0, radius = 0.3\<rparr>]"
  by (simp add: generateOrnaments_def main_loop.simps filler_loop.simps createItem_def
        createItem_loop.simps maxAttempts_def two_first two_second distanceTo_along_x
        pushItem_def buildItem_def Let_def)

lemma zero_ornaments:
  "allOrnaments (generateOrnaments (\<lambda>n. 0) 1 0)
     = [buildItem (\<lambda>n. 0) 0 (sampleCandidate (\<lambda>n. 0) 0 None)]"
  by (simp add: generateOrnaments_def main_loop.simps filler_loop.simps createItem_def
        createItem_loop.simps maxAttempts_def zero_candidate allOrnaments_def
        pushItem_def buildItem_def Let_def)

lemma sample_bell_fields:
  "treePos sample_bell = Vector3 (117 / 20) (- 9) 0"
  "scatterPos sample_bell = Vector3 (- (105 / 4)) (- (105 / 4)) (- (105 / 4))"
  "weight sample_bell = 3 / 100"
  by (simp_all add: sample_bell_def zero_candidate buildItem_def Let_def SCATTER_RADIUS_def)

lemma sample_group_wf:
  "mesh_mounted (new_mesh_group [sample_bell])"
  "items (new_mesh_group [sample_bell]) = [sample_bell]"
  "length (posArr (new_mesh_group [sample_bell])) = length (items (new_mesh_group [sample_bell])) * 3"
  "read3 (posArr (new_mesh_group [sample_bell])) 0 = scatterPos sample_bell"
  by (simp_all add: new_mesh_group_def read3_def)

section \<open>The generated layout\<close>

text \<open>
  C2. After the generation (main pass and bottom filler), any two distinct entries of
  \<open>placedItems\<close> are at a distance of at least 0.85 times the sum of their recorded
  collision radii; and the tree positions of the generated ornaments are exactly the
  recorded positions.
\<close>

theorem accepted_placements_separated:
  "(\<forall>i<length (placedItems (generateOrnaments rng targetCount extraCount)).
     \<forall>j<length (placedItems (generateOrnaments rng targetCount extraCount)). i \<noteq> j \<longrightarrow>
       0.85 * (radius (placedItems (generateOrnaments rng targetCount extraCount) ! i)
               + radius (placedItems (generateOrnaments rng targetCount extraCount) ! j))
       \<le> distanceTo (pos (placedItems (generateOrnaments rng targetCount extraCount) ! i))
                     (pos (placedItems (generateOrnaments rng targetCount extraCount) ! j)))
   \<and> treePos ` set (allOrnaments (generateOrnaments rng targetCount extraCount))
       = pos ` set (placedItems (generateOrnaments rng targetCount extraCount))"
  using placement_inv_generate[of rng targetCount extraCount]
  unfolding placement_inv_def separated_def by blast

theorem accepted_placements_separated_witness:
  "length (placedItems (generateOrnaments rng_two 2 0)) = 2
   \<and> 0.85 * (radius (placedItems (generateOrnaments rng_two 2 0) ! 0)
             + radius (placedItems (generateOrnaments rng_two 2 0) ! 1))
       \<le> distanceTo (pos (placedItems (generateOrnaments rng_two 2 0) ! 0))
                     (pos (placedItems (generateOrnaments rng_two 2 0) ! 1))"
proof -
  have len: "length (placedItems (generateOrnaments rng_two 2 0)) = 2"
    by (simp add: two_placed)
  from accepted_placements_separated[of rng_two 2 0] len show ?thesis by simp
qed

text \<open>
  C1, as the code has it. With every random draw in \<open>[0, 1)\<close>: each ornament of the
  generation (main pass and bottom filler) lies at a distance from the axis between 0.9
  and 1.15 times the cone radius at its height; each foliage particle between 0.4 and 1.0
  times the cone radius at its height; each photo position at exactly 1.25 times the cone
  radius at its height. The cone radius at height \<open>y\<close> is
  \<open>TREE_RADIUS * (1 - normalizedY y)\<close>.
\<close>

theorem tree_positions_band:
  assumes rng: "\<forall>n. 0 \<le> rng n \<and> rng n < 1"
  shows "(\<forall>it\<in>set (allOrnaments (generateOrnaments rng targetCount extraCount)).
            0.9 * coneRadiusAtY (vy (treePos it)) \<le> distanceFromAxis (treePos it)
          \<and> distanceFromAxis (treePos it) \<le> 1.15 * coneRadiusAtY (vy (treePos it)))
       \<and> (\<forall>i<count.
            0.4 * coneRadiusAtY (vy (read3 (positions (Foliage_geometry rng count)) i))
              \<le> distanceFromAxis (read3 (positions (Foliage_geometry rng count)) i)
          \<and> distanceFromAxis (read3 (positions (Foliage_geometry rng count)) i)
              \<le> 1.0 * coneRadiusAtY (vy (read3 (positions (Foliage_geometry rng count)) i)))
       \<and> distanceFromAxis (calculateTreePos rng k index)
           = 1.25 * coneRadiusAtY (vy (calculateTreePos rng k index))"
proof (intro conjI)
  show "\<forall>it\<in>set (allOrnaments (generateOrnaments rng targetCount extraCount)).
            0.9 * coneRadiusAtY (vy (treePos it)) \<le> distanceFromAxis (treePos it)
          \<and> distanceFromAxis (treePos it) \<le> 1.15 * coneRadiusAtY (vy (treePos it))"
    using hug_inv_generate[OF rng, of targetCount extraCount]
    unfolding hug_inv_def hugs_def by blast
  show "\<forall>i<count.
            0.4 * coneRadiusAtY (vy (read3 (positions (Foliage_geometry rng count)) i))
              \<le> distanceFromAxis (read3 (positions (Foliage_geometry rng count)) i)
          \<and> distanceFromAxis (read3 (positions (Foliage_geometry rng count)) i)
              \<le> 1.0 * coneRadiusAtY (vy (read3 (positions (Foliage_geometry rng count)) i))"
    using Foliage_geometry_hugs[OF rng, of count] unfolding hugs_def by simp
  show "distanceFromAxis (calculateTreePos rng k index)
           = 1.25 * coneRadiusAtY (vy (calculateTreePos rng k index))"
    by (rule calculateTreePos_radius[OF rng])
qed

theorem tree_positions_band_witness:
  "list_all (\<lambda>it. 0.9 * coneRadiusAtY (vy (treePos it)) \<le> distanceFromAxis (treePos it)
                 \<and> distanceFromAxis (treePos it) \<le> 1.15 * coneRadiusAtY (vy (treePos it)))
     (allOrnaments (generateOrnaments (\<lambda>n. 0) 1 0))
   \<and> allOrnaments (generateOrnaments (\<lambda>n. 0) 1 0) \<noteq> []
   \<and> 0.4 * coneRadiusAtY (vy (read3 (positions (Foliage_geometry (\<lambda>n. 0) 1)) 0))
       \<le> distanceFromAxis (read3 (positions (Foliage_geometry (\<lambda>n. 0) 1)) 0)
   \<and> distanceFromAxis (read3 (positions (Foliage_geometry (\<lambda>n. 0) 1)) 0)
       \<le> 1.0 * coneRadiusAtY (vy (read3 (positions (Foliage_geometry (\<lambda>n. 0) 1)) 0))
   \<and> distanceFromAxis (calculateTreePos (\<lambda>n. 0) 0 0)
       = 1.25 * coneRadiusAtY (vy (calculateTreePos (\<lambda>n. 0) 0 0))"
proof -
  have rng: "\<forall>n. (0::real) \<le> (\<lambda>n. 0) n \<and> (\<lambda>n. 0::real) n < 1" by simp
  have ne: "allOrnaments (generateOrnaments (\<lambda>n. 0) 1 0) \<noteq> []"
    unfolding zero_ornaments by simp
  from tree_positions_band[OF rng, of 1 0 1 0 0] ne show ?thesis
    unfolding list_all_iff by blast
qed

text \<open>
  The band \<open>[0.9, 1.15]\<close> of C1 does not hold for foliage and photos: when every draw is
  0, the first foliage particle lies at 0.4 times the cone radius at its height, and the
  photo at 1.25 times.
\<close>

theorem foliage_and_photo_outside_band:
  "distanceFromAxis (read3 (positions (Foliage_geometry (\<lambda>n. 0) 1)) 0)
     < 0.9 * coneRadiusAtY (vy (read3 (positions (Foliage_geometry (\<lambda>n. 0) 1)) 0))
   \<and> 1.15 * coneRadiusAtY (vy (calculateTreePos (\<lambda>n. 0) 0 0))
     < distanceFromAxis (calculateTreePos (\<lambda>n. 0) 0 0)"
  unfolding foliage_zero_point photo_zero_point distanceFromAxis_on_x
  by (simp add: coneRadiusAtY_def normalizedY_def TREE_HEIGHT_def TREE_RADIUS_def)

text \<open>
  C3. \<open>createItem\<close> makes at most 50 attempts; when it returns \<open>null\<close> the list of placed
  items is the one it was given; and when each of the 50 candidates it samples collides
  with a placed item, it returns \<open>null\<close> after exactly 50 attempts. The function is total
  and has no failing branch.
\<close>

theorem createItem_exhaustion:
  "attempts (createItem rng ident ov k pl) \<le> 50
   \<and> (item (createItem rng ident ov k pl) = None \<longrightarrow> placed (createItem rng ident ov k pl) = pl)
   \<and> ((\<forall>j<50. isColliding pl (c_treePos (sampleCandidate rng (attempt_start rng ov k j) ov))
                   (c_collisionRadius (sampleCandidate rng (attempt_start rng ov k j) ov)))
        \<longrightarrow> createItem rng ident ov k pl
            = \<lparr>item = None, attempts = 50, next_draw = attempt_start rng ov k 50, placed = pl\<rparr>)"
proof (intro conjI impI)
  show "attempts (createItem rng ident ov k pl) \<le> 50"
    using createItem_loop_attempts[of 0 rng ident ov k pl]
    by (simp add: createItem_def maxAttempts_def)
  show "placed (createItem rng ident ov k pl) = pl"
    if "item (createItem rng ident ov k pl) = None"
    using that by (rule createItem_None)
  show "createItem rng ident ov k pl
            = \<lparr>item = None, attempts = 50, next_draw = attempt_start rng ov k 50, placed = pl\<rparr>"
    if "\<forall>j<50. isColliding pl (c_treePos (sampleCandidate rng (attempt_start rng ov k j) ov))
                   (c_collisionRadius (sampleCandidate rng (attempt_start rng ov k j) ov))"
    using createItem_loop_exhausted[of 0 pl rng ov k ident] that
    by (simp add: createItem_def maxAttempts_def)
qed

theorem createItem_exhaustion_witness:
  "createItem (\<lambda>n. 0) 7 None 0 [\<lparr>pos = Vector3 (117 / 20) (- 9) 0, radius = 1\<rparr>]
     = \<lparr>item = None, attempts = 50, next_draw = attempt_start (\<lambda>n. 0) None 0 50,
        placed = [\<lparr>pos = Vector3 (117 / 20) (- 9) 0, radius = 1\<rparr>]\<rparr>"
  using createItem_exhaustion[of "\<lambda>n. 0" 7 None 0 "[\<lparr>pos = Vector3 (117 / 20) (- 9) 0, radius = 1\<rparr>]"]
  by (simp add: zero_candidate distanceTo_def)

section \<open>The animation driver\<close>

declare updateMesh_loop.simps [simp del]

lemma updateMesh_loop_step:
  assumes "i < length its"
  shows "updateMesh_loop isTree its i arr
     = updateMesh_loop isTree its (i + 1)
         (let target = (if isTree then treePos (its ! i) else scatterPos (its ! i));
              speed = (if isTree then weight (its ! i) else weight (its ! i) * 2.5);
              a1 = arr[i * 3 := lerp (arr ! (i * 3)) (vx target) speed];
              a2 = a1[i * 3 + 1 := lerp (a1 ! (i * 3 + 1)) (vy target) speed];
              a3 = a2[i * 3 + 2 := lerp (a2 ! (i * 3 + 2)) (vz target) speed]
          in a3)"
  using assms by (simp add: updateMesh_loop.simps[of isTree its i arr] Let_def)

lemma updateMesh_loop_done:
  "\<not> i < length its \<Longrightarrow> updateMesh_loop isTree its i arr = arr"
  by (simp add: updateMesh_loop.simps[of isTree its i arr])

lemma updateMesh_loop_length [simp]:
  "length (updateMesh_loop isTree its i arr) = length arr"
proof (induction "length its - i" arbitrary: i arr rule: less_induct)
  case less
  show ?case
  proof (cases "i < length its")
    case True
    then have dec: "length its - (i + 1) < length its - i" by simp
    show ?thesis
      unfolding updateMesh_loop_step[OF True] less.hyps[OF dec] by (simp add: Let_def)
  next
    case False
    then show ?thesis by (simp add: updateMesh_loop_done)
  qed
qed

lemma updateMesh_loop_read:
  "length arr = length its * 3 \<Longrightarrow>
   read3 (updateMesh_loop isTree its i arr) j
     = (if i \<le> j \<and> j < length its then smooth_item isTree (its ! j) (read3 arr j)
        else read3 arr j)"
proof (induction "length its - i" arbitrary: i arr rule: less_induct)
  case less
  show ?case
  proof (cases "i < length its")
    case True
    then have dec: "length its - (i + 1) < length its - i" by simp
    define target where "target = (if isTree then treePos (its ! i) else scatterPos (its ! i))"
    define speed where "speed = (if isTree then weight (its ! i) else weight (its ! i) * 2.5)"
    define arr' where "arr' = arr[i * 3 := lerp (arr ! (i * 3)) (vx target) speed,
        i * 3 + 1 := lerp (arr ! (i * 3 + 1)) (vy target) speed,
        i * 3 + 2 := lerp (arr ! (i * 3 + 2)) (vz target) speed]"
    have in_range: "i * 3 + 2 < length arr" using True less.prems by simp
    have unfold: "updateMesh_loop isTree its i arr = updateMesh_loop isTree its (i + 1) arr'"
      unfolding updateMesh_loop_step[OF True] arr'_def target_def speed_def
      using in_range by (simp add: Let_def)
    have len': "length arr' = length its * 3" using less.prems by (simp add: arr'_def)
    have here: "read3 arr' i = smooth_item isTree (its ! i) (read3 arr i)"
      unfolding arr'_def read3_update_same[OF in_range]
      by (simp add: smooth_item_def Let_def target_def speed_def read3_def)
    have other: "j \<noteq> i \<Longrightarrow> read3 arr' j = read3 arr j"
      unfolding arr'_def by (rule read3_update_other)
    note IH = less.hyps[OF dec len']
    show ?thesis
    proof (cases "j = i")
      case True
      then show ?thesis using unfold IH here \<open>i < length its\<close> by simp
    next
      case False
      then show ?thesis using unfold IH other by auto
    qed
  next
    case False
    then show ?thesis by (auto simp add: updateMesh_loop_done)
  qed
qed

lemma updateMesh_items [simp]: "items (updateMesh isTree g) = items g"
  by (simp add: updateMesh_def)

lemma updateMesh_mounted [simp]: "mesh_mounted (updateMesh isTree g) = mesh_mounted g"
  by (simp add: updateMesh_def)

lemma updateMesh_length [simp]: "length (posArr (updateMesh isTree g)) = length (posArr g)"
  by (simp add: updateMesh_def)

lemma updateMesh_read:
  assumes "mesh_mounted g" "length (posArr g) = length (items g) * 3" "j < length (items g)"
  shows "read3 (posArr (updateMesh isTree g)) j
         = smooth_item isTree (items g ! j) (read3 (posArr g) j)"
  using assms by (simp add: updateMesh_def updateMesh_loop_read)

lemma mesh_frames_items [simp]: "items (mesh_frames h g) = items g"
  by (induction h arbitrary: g) simp_all

lemma mesh_frames_mounted [simp]: "mesh_mounted (mesh_frames h g) = mesh_mounted g"
  by (induction h arbitrary: g) simp_all

lemma mesh_frames_length [simp]: "length (posArr (mesh_frames h g)) = length (posArr g)"
  by (induction h arbitrary: g) simp_all

lemma mesh_frames_append: "mesh_frames (h @ h') g = mesh_frames h' (mesh_frames h g)"
  by (induction h arbitrary: g) simp_all

lemma lerp_closed:
  "((\<lambda>p. lerp p t w) ^^ k) p = t + (1 - w) ^ k * (p - t)"
proof (induction k)
  case 0
  then show ?case by simp
next
  case (Suc k)
  have "((\<lambda>p. lerp p t w) ^^ Suc k) p = lerp (t + (1 - w) ^ k * (p - t)) t w"
    using Suc by simp
  also have "\<dots> = t + (1 - w) ^ Suc k * (p - t)"
    by (simp add: lerp_def algebra_simps)
  finally show ?case .
qed

lemma lerp_limit:
  assumes "0 < w" "w < 2"
  shows "(\<lambda>k. ((\<lambda>p. lerp p t w) ^^ k) p) \<longlonglongrightarrow> t"
proof -
  have "\<bar>1 - w\<bar> < 1" using assms by simp
  then have "(\<lambda>k. (1 - w) ^ k) \<longlonglongrightarrow> 0" by (rule LIMSEQ_abs_realpow_zero2)
  then have "(\<lambda>k. t + (1 - w) ^ k * (p - t)) \<longlonglongrightarrow> t + 0 * (p - t)"
    by (intro tendsto_add tendsto_mult tendsto_const)
  then show ?thesis by (simp add: lerp_closed)
qed

lemma tree_frames_read:
  assumes "mesh_mounted g" "length (posArr g) = length (items g) * 3" "j < length (items g)"
  shows "read3 (posArr (mesh_frames (replicate k TREE_SHAPE) g)) j
         = Vector3 (((\<lambda>p. lerp p (vx (treePos (items g ! j))) (weight (items g ! j))) ^^ k)
                      (vx (read3 (posArr g) j)))
                   (((\<lambda>p. lerp p (vy (treePos (items g ! j))) (weight (items g ! j))) ^^ k)
                      (vy (read3 (posArr g) j)))
                   (((\<lambda>p. lerp p (vz (treePos (items g ! j))) (weight (items g ! j))) ^^ k)
                      (vz (read3 (posArr g) j)))"
proof (induction k)
  case 0
  then show ?case by simp
next
  case (Suc k)
  let ?g = "mesh_frames (replicate k TREE_SHAPE) g"
  have "mesh_frames (replicate (Suc k) TREE_SHAPE) g = updateMesh True ?g"
    using mesh_frames_append[of "replicate k TREE_SHAPE" "[TREE_SHAPE]" g]
    by (simp add: replicate_append_same)
  moreover have "read3 (posArr (updateMesh True ?g)) j
      = smooth_item True (items g ! j) (read3 (posArr ?g) j)"
    using updateMesh_read[of ?g j True] assms by simp
  ultimately show ?case using Suc by (simp add: smooth_item_def Let_def)
qed

lemma photo_smooth_step:
  "photo_smooth True ph q
     = Vector3 (lerp (vx q) (vx (treePos ph)) 0.08) (lerp (vy q) (vy (treePos ph)) 0.08)
               (lerp (vz q) (vz (treePos ph)) 0.08)"
  by (simp add: photo_smooth_def vec_lerp_def lerp_def field_simps)

text \<open>
  The frame of a photo is more than its smoothing step: in TREE_SHAPE, outside the
  presentation mode, it adds a sway to the height after the step, so a photo hovers
  around its \<open>treePos\<close>.
\<close>

lemma FrameMesh_frame_tree_position:
  assumes "group_mounted m" and "f_treeState inp = TREE_SHAPE" and "\<not> f_globalScale inp > 2"
  shows "group_position (FrameMesh_frame inp m)
         = Vector3 (vx (photo_smooth True (photo m) (group_position m)))
             (vy (photo_smooth True (photo m) (group_position m))
              + sin (f_time inp * 2 + real (photo_id (photo m))) * 0.002)
             (vz (photo_smooth True (photo m) (group_position m)))"
  using assms by (simp add: FrameMesh_frame_def Let_def)

lemma FrameMesh_frame_photo [simp]: "photo (FrameMesh_frame inp m) = photo m"
  by (simp add: FrameMesh_frame_def Let_def split: option.split)

lemma FrameMesh_frame_mounted [simp]: "group_mounted (FrameMesh_frame inp m) = group_mounted m"
  by (simp add: FrameMesh_frame_def Let_def split: option.split)

lemma FrameMesh_run_photo [simp]: "photo (FrameMesh_run inp k m) = photo m"
  by (induction k) simp_all

lemma FrameMesh_run_mounted [simp]: "group_mounted (FrameMesh_run inp k m) = group_mounted m"
  by (induction k) simp_all

lemma FrameMesh_run_step:
  assumes "group_mounted m" and "f_treeState (inp k) = TREE_SHAPE"
    and "f_globalScale (inp k) \<le> 2"
  shows "vx (group_position (FrameMesh_run inp (Suc k) m))
           = lerp (vx (group_position (FrameMesh_run inp k m))) (vx (treePos (photo m))) 0.08"
    and "vy (group_position (FrameMesh_run inp (Suc k) m))
           = lerp (vy (group_position (FrameMesh_run inp k m))) (vy (treePos (photo m))) 0.08
             + sin (f_time (inp k) * 2 + real (photo_id (photo m))) * 0.002"
    and "vz (group_position (FrameMesh_run inp (Suc k) m))
           = lerp (vz (group_position (FrameMesh_run inp k m))) (vz (treePos (photo m))) 0.08"
proof -
  have ns: "\<not> f_globalScale (inp k) > 2" using assms(3) by simp
  have mt: "group_mounted (FrameMesh_run inp k m)" using assms(1) by simp
  note eq = FrameMesh_frame_tree_position[OF mt assms(2) ns]
  show "vx (group_position (FrameMesh_run inp (Suc k) m))
           = lerp (vx (group_position (FrameMesh_run inp k m))) (vx (treePos (photo m))) 0.08"
    unfolding FrameMesh_run.simps eq by (simp add: photo_smooth_step)
  show "vy (group_position (FrameMesh_run inp (Suc k) m))
           = lerp (vy (group_position (FrameMesh_run inp k m))) (vy (treePos (photo m))) 0.08
             + sin (f_time (inp k) * 2 + real (photo_id (photo m))) * 0.002"
    unfolding FrameMesh_run.simps eq by (simp add: photo_smooth_step)
  show "vz (group_position (FrameMesh_run inp (Suc k) m))
           = lerp (vz (group_position (FrameMesh_run inp k m))) (vz (treePos (photo m))) 0.08"
    unfolding FrameMesh_run.simps eq by (simp add: photo_smooth_step)
qed

lemma FrameMesh_run_xz:
  assumes "group_mounted m"
    and "\<forall>k. f_treeState (inp k) = TREE_SHAPE \<and> f_globalScale (inp k) \<le> 2"
  shows "vx (group_position (FrameMesh_run inp k m))
           = ((\<lambda>q. lerp q (vx (treePos (photo m))) 0.08) ^^ k) (vx (group_position m))"
    and "vz (group_position (FrameMesh_run inp k m))
           = ((\<lambda>q. lerp q (vz (treePos (photo m))) 0.08) ^^ k) (vz (group_position m))"
proof (induction k)
  case 0
  { case 1 show ?case by simp }
  { case 2 show ?case by simp }
next
  case (Suc k)
  have c: "f_treeState (inp k) = TREE_SHAPE" "f_globalScale (inp k) \<le> 2" using assms(2) by blast+
  { case 1 show ?case unfolding FrameMesh_run_step(1)[of m inp k, OF assms(1) c] Suc(1) by simp }
  { case 2 show ?case unfolding FrameMesh_run_step(3)[of m inp k, OF assms(1) c] Suc(2) by simp }
qed

lemma hover_step:
  fixes e s B :: real
  assumes "\<bar>s\<bar> \<le> 1" and "\<bar>e\<bar> \<le> B"
  shows "\<bar>(23 / 25) * e + s * (1 / 500)\<bar> \<le> (23 / 25) * B + 1 / 500"
proof -
  have "\<bar>(23 / 25) * e + s * (1 / 500)\<bar> \<le> \<bar>(23 / 25) * e\<bar> + \<bar>s * (1 / 500)\<bar>"
    by (rule abs_triangle_ineq)
  moreover have "\<bar>(23 / 25) * e\<bar> = (23 / 25) * \<bar>e\<bar>" by (simp add: abs_mult)
  moreover have "\<bar>s * (1 / 500)\<bar> = \<bar>s\<bar> * (1 / 500)" by (simp add: abs_mult)
  ultimately show ?thesis using assms by linarith
qed

lemma FrameMesh_run_hover:
  assumes "group_mounted m"
    and "\<forall>k. f_treeState (inp k) = TREE_SHAPE \<and> f_globalScale (inp k) \<le> 2"
  shows "\<bar>vy (group_position (FrameMesh_run inp k m)) - vy (treePos (photo m))\<bar>
         \<le> (23 / 25) ^ k * \<bar>vy (group_position m) - vy (treePos (photo m))\<bar> + 1 / 40"
proof (induction k)
  case 0
  then show ?case by simp
next
  case (Suc k)
  define T where "T = vy (treePos (photo m))"
  define e where "e = vy (group_position (FrameMesh_run inp k m)) - T"
  define s where "s = sin (f_time (inp k) * 2 + real (photo_id (photo m)))"
  define B where "B = (23 / 25) ^ k * \<bar>vy (group_position m) - T\<bar> + 1 / 40"
  have c: "f_treeState (inp k) = TREE_SHAPE" "f_globalScale (inp k) \<le> 2" using assms(2) by blast+
  have eq: "vy (group_position (FrameMesh_run inp (Suc k) m)) - T
        = (23 / 25) * e + s * (1 / 500)"
    unfolding FrameMesh_run_step(2)[of m inp k, OF assms(1) c] e_def s_def T_def
    by (simp add: lerp_def field_simps)
  have s1: "\<bar>s\<bar> \<le> 1" unfolding s_def by (rule abs_sin_le_one)
  have eB: "\<bar>e\<bar> \<le> B" using Suc unfolding e_def B_def T_def .
  have "\<bar>vy (group_position (FrameMesh_run inp (Suc k) m)) - T\<bar> \<le> (23 / 25) * B + 1 / 500"
    unfolding eq by (rule hover_step[OF s1 eB])
  also have "\<dots> = (23 / 25) ^ Suc k * \<bar>vy (group_position m) - T\<bar> + 1 / 40"
    unfolding B_def by (simp add: field_simps)
  finally show ?case unfolding T_def .
qed

lemma Foliage_run_mounted [simp]:
  "shader_mounted (Foliage_run inp k f) = shader_mounted f"
  by (induction k) (simp_all add: Foliage_frame_def Let_def)

lemma Foliage_run_factor:
  assumes "shader_mounted f" and "\<forall>k. f_treeState (inp k) = TREE_SHAPE"
  shows "uMorphFactor (Foliage_run inp k f) = ((\<lambda>q. lerp q 1 0.03) ^^ k) (uMorphFactor f)"
proof (induction k)
  case 0
  then show ?case by simp
next
  case (Suc k)
  have "f_treeState (inp k) = TREE_SHAPE" using assms(2) by blast
  then have "uMorphFactor (Foliage_run inp (Suc k) f)
             = lerp (uMorphFactor (Foliage_run inp k f)) 1 0.03"
    using assms(1) by (simp add: Foliage_frame_def Let_def)
  then show ?case using Suc by simp
qed


lemma sample_frame_fields [simp]:
  "group_mounted sample_frame"
  "photo sample_frame = sample_photo"
  "group_position sample_frame = Vector3 0 0 0"
  by (simp_all add: sample_frame_def)

lemma settled_frame_fields [simp]:
  "group_mounted settled_frame"
  "photo settled_frame = sample_photo"
  "group_position settled_frame = treePos sample_photo"
  by (simp_all add: settled_frame_def)

lemma sixty_fps_fields [simp]:
  "f_treeState (sixty_fps k) = TREE_SHAPE"
  "f_globalScale (sixty_fps k) = 1"
  "f_time (sixty_fps k) = real k / 60"
  by (simp_all add: sixty_fps_def)

lemma sin_steps_do_not_vanish:
  fixes c :: real
  shows "\<not> (\<lambda>k. sin (real k / 60 * 2 + c)) \<longlonglongrightarrow> 0"
proof
  let ?a = "\<lambda>k. real k / 60 * 2 + c"
  assume s0: "(\<lambda>k. sin (?a k)) \<longlonglongrightarrow> 0"
  then have s1: "(\<lambda>k. sin (?a (Suc k))) \<longlonglongrightarrow> 0" by (rule LIMSEQ_Suc)
  have "1 / 30 < pi" using pi_ge_two by linarith
  then have pos: "0 < sin (1 / 30 :: real)" by (intro sin_gt_zero) simp_all
  have step: "?a (Suc k) = ?a k + 1 / 30" for k by (simp add: field_simps)
  have cos_eq: "cos (?a k) = (sin (?a (Suc k)) - sin (?a k) * cos (1 / 30)) / sin (1 / 30)" for k
    unfolding step sin_add using pos by (simp add: field_simps)
  have "(\<lambda>k. (sin (?a (Suc k)) - sin (?a k) * cos (1 / 30)) / sin (1 / 30))
          \<longlonglongrightarrow> (0 - 0 * cos (1 / 30)) / sin (1 / 30)"
    by (intro tendsto_divide tendsto_diff tendsto_mult tendsto_const s0 s1) (use pos in simp)
  then have c0: "(\<lambda>k. cos (?a k)) \<longlonglongrightarrow> 0" by (simp only: cos_eq[symmetric]) simp
  have "(\<lambda>k. sin (?a k) * sin (?a k) + cos (?a k) * cos (?a k)) \<longlonglongrightarrow> 0 * 0 + 0 * 0"
    by (intro tendsto_add tendsto_mult s0 c0)
  moreover have "sin (?a k) * sin (?a k) + cos (?a k) * cos (?a k) = 1" for k
    using sin_cos_squared_add3[of "?a k"] by (simp add: add.commute)
  ultimately have zero: "(\<lambda>k::nat. 1::real) \<longlonglongrightarrow> 0" by simp
  have one: "(\<lambda>k::nat. 1::real) \<longlonglongrightarrow> 1" by (rule tendsto_const)
  from LIMSEQ_unique[OF one zero] show False by simp
qed

text \<open>
  C7, as the code has it. While the Mode is TREE_SHAPE, from any live position and after
  any history of frames in either Mode: the live position of an ornament (mounted mesh,
  weight in \<open>(0, 1)\<close>, as every generated ornament has by \<open>generated_weights\<close>) tends to
  its \<open>treePos\<close>, coordinate by coordinate. Outside the presentation mode (scale signal at
  most 2), a photo's \<open>x\<close> and \<open>z\<close> tend to those of its \<open>treePos\<close>, and after \<open>k\<close> frames its
  height is within \<open>0.92 ^ k\<close> times its first distance plus 0.025 of the height of its
  \<open>treePos\<close>: it hovers within 0.025 of it. The morph factor of the foliage tends to 1.
\<close>

theorem mode_toggle_terminal_state:
  assumes "mesh_mounted g" and "length (posArr g) = length (items g) * 3"
    and "j < length (items g)"
    and "0 < weight (items g ! j)" and "weight (items g ! j) < 1"
    and "group_mounted m" and "shader_mounted f"
    and "\<forall>k. f_treeState (inp k) = TREE_SHAPE \<and> f_globalScale (inp k) \<le> 2"
  shows "(\<lambda>k. vx (read3 (posArr (mesh_frames (history @ replicate k TREE_SHAPE) g)) j))
           \<longlonglongrightarrow> vx (treePos (items g ! j))
       \<and> (\<lambda>k. vy (read3 (posArr (mesh_frames (history @ replicate k TREE_SHAPE) g)) j))
           \<longlonglongrightarrow> vy (treePos (items g ! j))
       \<and> (\<lambda>k. vz (read3 (posArr (mesh_frames (history @ replicate k TREE_SHAPE) g)) j))
           \<longlonglongrightarrow> vz (treePos (items g ! j))
       \<and> (\<lambda>k. vx (group_position (FrameMesh_run inp k m))) \<longlonglongrightarrow> vx (treePos (photo m))
       \<and> (\<lambda>k. vz (group_position (FrameMesh_run inp k m))) \<longlonglongrightarrow> vz (treePos (photo m))
       \<and> (\<forall>k. \<bar>vy (group_position (FrameMesh_run inp k m)) - vy (treePos (photo m))\<bar>
                \<le> (23 / 25) ^ k * \<bar>vy (group_position m) - vy (treePos (photo m))\<bar> + 1 / 40)
       \<and> (\<lambda>k. uMorphFactor (Foliage_run inp k f)) \<longlonglongrightarrow> 1"
proof -
  let ?g = "mesh_frames history g"
  have wf: "mesh_mounted ?g" "length (posArr ?g) = length (items ?g) * 3"
    "j < length (items ?g)"
    using assms(1-3) by simp_all
  have w: "0 < weight (items g ! j)" "weight (items g ! j) < 2" using assms(4,5) by simp_all
  have rd: "read3 (posArr (mesh_frames (history @ replicate k TREE_SHAPE) g)) j
         = Vector3 (((\<lambda>p. lerp p (vx (treePos (items g ! j))) (weight (items g ! j))) ^^ k)
                      (vx (read3 (posArr ?g) j)))
                   (((\<lambda>p. lerp p (vy (treePos (items g ! j))) (weight (items g ! j))) ^^ k)
                      (vy (read3 (posArr ?g) j)))
                   (((\<lambda>p. lerp p (vz (treePos (items g ! j))) (weight (items g ! j))) ^^ k)
                      (vz (read3 (posArr ?g) j)))" for k
    using tree_frames_read[OF wf, of k] by (simp add: mesh_frames_append)
  have r: "(0::real) < 0.08" "(0.08::real) < 2" by simp_all
  have q: "(0::real) < 0.03" "(0.03::real) < 2" by simp_all
  have tree: "\<forall>k. f_treeState (inp k) = TREE_SHAPE" using assms(8) by blast
  have ornament: "(\<lambda>k. vx (read3 (posArr (mesh_frames (history @ replicate k TREE_SHAPE) g)) j))
           \<longlonglongrightarrow> vx (treePos (items g ! j))
       \<and> (\<lambda>k. vy (read3 (posArr (mesh_frames (history @ replicate k TREE_SHAPE) g)) j))
           \<longlonglongrightarrow> vy (treePos (items g ! j))
       \<and> (\<lambda>k. vz (read3 (posArr (mesh_frames (history @ replicate k TREE_SHAPE) g)) j))
           \<longlonglongrightarrow> vz (treePos (items g ! j))"
    unfolding rd vec3.sel by (intro conjI lerp_limit[OF w])
  have px: "(\<lambda>k. vx (group_position (FrameMesh_run inp k m))) \<longlonglongrightarrow> vx (treePos (photo m))"
    unfolding FrameMesh_run_xz(1)[OF assms(6,8)] by (rule lerp_limit[OF r])
  have pz: "(\<lambda>k. vz (group_position (FrameMesh_run inp k m))) \<longlonglongrightarrow> vz (treePos (photo m))"
    unfolding FrameMesh_run_xz(2)[OF assms(6,8)] by (rule lerp_limit[OF r])
  have py: "\<forall>k. \<bar>vy (group_position (FrameMesh_run inp k m)) - vy (treePos (photo m))\<bar>
                \<le> (23 / 25) ^ k * \<bar>vy (group_position m) - vy (treePos (photo m))\<bar> + 1 / 40"
    using FrameMesh_run_hover[OF assms(6,8)] by blast
  have fl: "(\<lambda>k. uMorphFactor (Foliage_run inp k f)) \<longlonglongrightarrow> 1"
    unfolding Foliage_run_factor[OF assms(7) tree] by (rule lerp_limit[OF q])
  show ?thesis using ornament px pz py fl by blast
qed

theorem mode_toggle_terminal_state_witness:
  "(\<lambda>k. vx (read3 (posArr (mesh_frames ([TREE_SHAPE, SCATTERED] @ replicate k TREE_SHAPE)
                               (new_mesh_group [sample_bell]))) 0))
     \<longlonglongrightarrow> 117 / 20
   \<and> (\<lambda>k. vy (read3 (posArr (mesh_frames ([TREE_SHAPE, SCATTERED] @ replicate k TREE_SHAPE)
                               (new_mesh_group [sample_bell]))) 0))
     \<longlonglongrightarrow> - 9
   \<and> (\<lambda>k. vz (read3 (posArr (mesh_frames ([TREE_SHAPE, SCATTERED] @ replicate k TREE_SHAPE)
                               (new_mesh_group [sample_bell]))) 0))
     \<longlonglongrightarrow> 0
   \<and> (\<lambda>k. vx (group_position (FrameMesh_run sixty_fps k sample_frame))) \<longlonglongrightarrow> 65 / 9
   \<and> (\<lambda>k. vz (group_position (FrameMesh_run sixty_fps k sample_frame))) \<longlonglongrightarrow> 0
   \<and> (\<forall>k. \<bar>vy (group_position (FrameMesh_run sixty_fps k sample_frame)) - (- 7)\<bar>
            \<le> (23 / 25) ^ k * 7 + 1 / 40)
   \<and> (\<lambda>k. uMorphFactor (Foliage_run sixty_fps k (foliage sample_scene))) \<longlonglongrightarrow> 1"
proof -
  have w: "0 < weight (items (new_mesh_group [sample_bell]) ! 0)"
    "weight (items (new_mesh_group [sample_bell]) ! 0) < 1"
    by (simp_all add: sample_group_wf sample_bell_fields)
  have j: "0 < length (items (new_mesh_group [sample_bell]))" by (simp add: sample_group_wf)
  have tp: "treePos (items (new_mesh_group [sample_bell]) ! 0) = Vector3 (117 / 20) (- 9) 0"
    by (simp add: sample_group_wf sample_bell_fields)
  have ph: "treePos (photo sample_frame) = Vector3 (65 / 9) (- 7) 0"
    by (simp add: sample_photo_def photo_zero_point)
  have fm: "group_mounted sample_frame" by simp
  have sh: "shader_mounted (foliage sample_scene)" by (simp add: sample_scene_def)
  have inp: "\<forall>k. f_treeState (sixty_fps k) = TREE_SHAPE \<and> f_globalScale (sixty_fps k) \<le> 2"
    by simp
  have d0: "\<bar>vy (group_position sample_frame) - vy (Vector3 (65 / 9) (- 7) 0)\<bar> = 7" by simp
  from mode_toggle_terminal_state[OF sample_group_wf(1) sample_group_wf(3) j w fm sh inp,
      of "[TREE_SHAPE, SCATTERED]"]
  show ?thesis unfolding tp ph vec3.sel d0 by simp
qed


text \<open>
  A photo does not settle on its \<open>treePos\<close>: started there, at sixty frames a second in
  TREE_SHAPE, its height does not tend to the height of its \<open>treePos\<close>, because each
  frame adds the sway after the smoothing step.
\<close>

theorem photo_never_settles:
  "\<not> (\<lambda>k. vy (group_position (FrameMesh_run sixty_fps k settled_frame)))
        \<longlonglongrightarrow> vy (treePos (photo settled_frame))"
proof
  let ?y = "\<lambda>k. vy (group_position (FrameMesh_run sixty_fps k settled_frame))"
  let ?T = "vy (treePos (photo settled_frame))"
  let ?c = "real (photo_id (photo settled_frame))"
  assume lim: "?y \<longlonglongrightarrow> ?T"
  then have lim1: "(\<lambda>k. ?y (Suc k)) \<longlonglongrightarrow> ?T" by (rule LIMSEQ_Suc)
  have rec: "?y (Suc k) = lerp (?y k) ?T 0.08 + sin (real k / 60 * 2 + ?c) * 0.002" for k
    using FrameMesh_run_step(2)[of settled_frame sixty_fps k] by simp
  have sway: "sin (real k / 60 * 2 + ?c) = (?y (Suc k) - lerp (?y k) ?T 0.08) * 500" for k
    unfolding rec by simp
  have "(\<lambda>k. (?y (Suc k) - ((1 - 0.08) * ?y k + 0.08 * ?T)) * 500)
          \<longlonglongrightarrow> (?T - ((1 - 0.08) * ?T + 0.08 * ?T)) * 500"
    by (intro tendsto_mult tendsto_diff tendsto_add tendsto_const lim lim1)
  then have "(\<lambda>k. sin (real k / 60 * 2 + ?c)) \<longlonglongrightarrow> 0"
    unfolding sway lerp_def by (simp add: algebra_simps)
  then show False using sin_steps_do_not_vanish[of ?c] by blast
qed


lemma updateScale_fixed:
  "pinchSmoother s = targetScale b \<Longrightarrow> pinchSmoother ((updateScale b ^^ n) s) = targetScale b"
  by (induction n) (simp_all add: updateScale_def targetScale_def lerpSpeed_def Let_def)

lemma lerp_fixed: "lerp t t w = t"
  by (simp add: lerp_def algebra_simps)

lemma vec_lerp_fixed: "vec_lerp v v w = v"
  by (simp add: vec_lerp_def)

lemma updateMesh_funpow_wf:
  "mesh_mounted ((updateMesh isTree ^^ n) g) = mesh_mounted g"
  "items ((updateMesh isTree ^^ n) g) = items g"
  "length (posArr ((updateMesh isTree ^^ n) g)) = length (posArr g)"
  by (induction n) simp_all

lemma updateMesh_fixed:
  assumes "mesh_mounted g" "length (posArr g) = length (items g) * 3" "j < length (items g)"
    and "read3 (posArr g) j = (if isTree then treePos (items g ! j) else scatterPos (items g ! j))"
  shows "read3 (posArr ((updateMesh isTree ^^ n) g)) j
         = (if isTree then treePos (items g ! j) else scatterPos (items g ! j))"
proof (induction n)
  case 0
  then show ?case using assms(4) by simp
next
  case (Suc n)
  let ?g = "(updateMesh isTree ^^ n) g"
  have "read3 (posArr (updateMesh isTree ?g)) j
        = smooth_item isTree (items g ! j) (read3 (posArr ?g) j)"
    using updateMesh_read[of ?g j isTree] assms(1-3) by (simp add: updateMesh_funpow_wf)
  then show ?case using Suc by (simp add: smooth_item_def lerp_fixed)
qed

text \<open>
  C8. At its fixed point the smoothing step changes nothing, however often it is applied:
  for \<open>THREE.MathUtils.lerp\<close> and \<open>Vector3.lerp\<close> at any target and rate, for the scale
  update when the smoother equals its target, and for \<open>updateMesh\<close> when the live position
  of an item equals the target of the Mode.
\<close>

theorem smoothing_fixed_point:
  "((\<lambda>p. lerp p target rate) ^^ n) target = target
   \<and> ((\<lambda>p. vec_lerp p v rate) ^^ n) v = v
   \<and> (pinchSmoother s = targetScale b \<longrightarrow>
        pinchSmoother ((updateScale b ^^ n) s) = targetScale b)
   \<and> (mesh_mounted g \<and> length (posArr g) = length (items g) * 3 \<and> j < length (items g)
        \<and> read3 (posArr g) j = (if isTree then treePos (items g ! j) else scatterPos (items g ! j))
      \<longrightarrow> read3 (posArr ((updateMesh isTree ^^ n) g)) j
            = (if isTree then treePos (items g ! j) else scatterPos (items g ! j)))"
proof (intro conjI impI)
  show "((\<lambda>p. lerp p target rate) ^^ n) target = target"
    by (induction n) (simp_all add: lerp_fixed)
  show "((\<lambda>p. vec_lerp p v rate) ^^ n) v = v"
    by (induction n) (simp_all add: vec_lerp_fixed)
  show "pinchSmoother ((updateScale b ^^ n) s) = targetScale b"
    if "pinchSmoother s = targetScale b"
    using that by (rule updateScale_fixed)
  show "read3 (posArr ((updateMesh isTree ^^ n) g)) j
            = (if isTree then treePos (items g ! j) else scatterPos (items g ! j))"
    if "mesh_mounted g \<and> length (posArr g) = length (items g) * 3 \<and> j < length (items g)
        \<and> read3 (posArr g) j = (if isTree then treePos (items g ! j) else scatterPos (items g ! j))"
    using that updateMesh_fixed[of g j isTree n] by blast
qed

theorem smoothing_fixed_point_witness:
  "((\<lambda>p. lerp p 3 (1 / 2)) ^^ 5) 3 = 3
   \<and> ((\<lambda>p. vec_lerp p (Vector3 1 2 3) (1 / 2)) ^^ 5) (Vector3 1 2 3) = Vector3 1 2 3
   \<and> pinchSmoother ((updateScale False ^^ 5) initial_gesture_state) = targetScale False
   \<and> read3 (posArr ((updateMesh False ^^ 5) (new_mesh_group [sample_bell]))) 0
       = scatterPos sample_bell"
proof -
  have a: "pinchSmoother initial_gesture_state = targetScale False"
    by (simp add: initial_gesture_state_def targetScale_def)
  have b: "mesh_mounted (new_mesh_group [sample_bell])
      \<and> length (posArr (new_mesh_group [sample_bell]))
          = length (items (new_mesh_group [sample_bell])) * 3
      \<and> 0 < length (items (new_mesh_group [sample_bell]))
      \<and> read3 (posArr (new_mesh_group [sample_bell])) 0
          = (if False then treePos (items (new_mesh_group [sample_bell]) ! 0)
             else scatterPos (items (new_mesh_group [sample_bell]) ! 0))"
    by (simp add: sample_group_wf)
  have c: "scatterPos (items (new_mesh_group [sample_bell]) ! 0) = scatterPos sample_bell"
    by (simp add: sample_group_wf)
  from smoothing_fixed_point[where target = 3 and rate = "1 / 2" and n = 5
      and v = "Vector3 1 2 3" and s = initial_gesture_state and b = False
      and g = "new_mesh_group [sample_bell]" and j = 0 and isTree = False] a b c
  show ?thesis by simp
qed

lemma Foliage_frame_geometry [simp]: "geometry (Foliage_frame t ts f) = geometry f"
  by (simp add: Foliage_frame_def Let_def)

lemma scene_frame_static:
  "items (spheres (ornaments (scene_frame inp sc))) = items (spheres (ornaments sc))"
  "items (boxes (ornaments (scene_frame inp sc))) = items (boxes (ornaments sc))"
  "items (icicles (ornaments (scene_frame inp sc))) = items (icicles (ornaments sc))"
  "items (candyCanes (ornaments (scene_frame inp sc))) = items (candyCanes (ornaments sc))"
  "items (bells (ornaments (scene_frame inp sc))) = items (bells (ornaments sc))"
  "items (snowflakes (ornaments (scene_frame inp sc))) = items (snowflakes (ornaments sc))"
  "map photo (photos (scene_frame inp sc)) = map photo (photos sc)"
  "geometry (foliage (scene_frame inp sc)) = geometry (foliage sc)"
  by (simp_all add: scene_frame_def Ornaments_frame_def Let_def comp_def)

text \<open>
  C9. After any number of frames, with any Mode, clock, scale signal and parent transform
  in each, the items of the six ornament meshes (with their \<open>scatterPos\<close> and \<open>treePos\<close>),
  the photo of every frame and the position arrays of the foliage are those the scene
  started with.
\<close>

theorem static_positions_fixed:
  "items (spheres (ornaments (scene_frames inps sc))) = items (spheres (ornaments sc))
   \<and> items (boxes (ornaments (scene_frames inps sc))) = items (boxes (ornaments sc))
   \<and> items (icicles (ornaments (scene_frames inps sc))) = items (icicles (ornaments sc))
   \<and> items (candyCanes (ornaments (scene_frames inps sc))) = items (candyCanes (ornaments sc))
   \<and> items (bells (ornaments (scene_frames inps sc))) = items (bells (ornaments sc))
   \<and> items (snowflakes (ornaments (scene_frames inps sc))) = items (snowflakes (ornaments sc))
   \<and> map photo (photos (scene_frames inps sc)) = map photo (photos sc)
   \<and> geometry (foliage (scene_frames inps sc)) = geometry (foliage sc)"
proof (induction inps arbitrary: sc)
  case Nil
  then show ?case by simp
next
  case (Cons inp inps)
  show ?case
    unfolding scene_frames.simps using Cons[of "scene_frame inp sc"]
    by (simp only: scene_frame_static)
qed

theorem static_positions_fixed_witness:
  "items (spheres (ornaments (scene_frames sample_inputs sample_scene)))
     = items (spheres (ornaments sample_scene))
   \<and> items (boxes (ornaments (scene_frames sample_inputs sample_scene)))
     = items (boxes (ornaments sample_scene))
   \<and> items (icicles (ornaments (scene_frames sample_inputs sample_scene)))
     = items (icicles (ornaments sample_scene))
   \<and> items (candyCanes (ornaments (scene_frames sample_inputs sample_scene)))
     = items (candyCanes (ornaments sample_scene))
   \<and> items (bells (ornaments (scene_frames sample_inputs sample_scene)))
     = items (bells (ornaments sample_scene))
   \<and> items (snowflakes (ornaments (scene_frames sample_inputs sample_scene)))
     = items (snowflakes (ornaments sample_scene))
   \<and> map photo (photos (scene_frames sample_inputs sample_scene))
     = map photo (photos sample_scene)
   \<and> geometry (foliage (scene_frames sample_inputs sample_scene))
     = geometry (foliage sample_scene)"
  by (rule static_positions_fixed)

end
